theory Spec2Isabelle
  imports Complex_Main
begin

section \<open>Python values\<close>

text \<open>
  A Python \<open>str\<close> is a sequence of Unicode code points, so it is modelled as a list of
  naturals.  \<open>py\<close> turns an ASCII literal of the source into such a string.
\<close>

type_synonym pystr = "nat list"

definition py :: "string \<Rightarrow> pystr" where
  "py s = map of_char s"

text \<open>
  The values the program handles: the recognition engine hands back nested dicts and
  lists whose leaves are strings and numbers.  A dict is an association list in insertion
  order, a lookup finds the first binding.  \<open>PyObject\<close> stands for an instance of plain
  \<open>object\<close>: it has no \<open>get\<close> and no \<open>strip\<close>, it is neither iterable nor
  subscriptable.  The numbers are kept abstract (\<open>'t\<close>): the formatter only copies them.
\<close>

datatype 't pyval =
    PyNone
  | PyNum 't
  | PyStr pystr
  | PyList "'t pyval list"
  | PyDict "(pystr \<times> 't pyval) list"
  | PyObject

datatype pyexc =
    Exception pystr
  | KeyError pystr
  | AttributeError
  | TypeError
  | ValueError
  | PermissionError
  | OSError
  | External nat

subsection \<open>The built-in operations the source uses\<close>

text \<open>\<open>str.isspace\<close> on one code point: the whitespace table of CPython.\<close>

definition is_space :: "nat \<Rightarrow> bool" where
  "is_space c \<longleftrightarrow>
     (9 \<le> c \<and> c \<le> 13) \<or> (28 \<le> c \<and> c \<le> 32) \<or> c = 133 \<or> c = 160 \<or> c = 5760
     \<or> (8192 \<le> c \<and> c \<le> 8202) \<or> c = 8232 \<or> c = 8233 \<or> c = 8239 \<or> c = 8287
     \<or> c = 12288"

text \<open>\<open>s.strip()\<close>: drop the whitespace at both ends.\<close>

definition strip :: "pystr \<Rightarrow> pystr" where
  "strip s = rev (dropWhile is_space (rev (dropWhile is_space s)))"

text \<open>\<open>d.get(k, default)\<close>: only a dict has the method.\<close>

fun py_get :: "'t pyval \<Rightarrow> pystr \<Rightarrow> 't pyval \<Rightarrow> pyexc + 't pyval" where
  "py_get (PyDict kvs) k dflt = (case map_of kvs k of None \<Rightarrow> Inr dflt | Some v \<Rightarrow> Inr v)"
| "py_get _ k dflt = Inl AttributeError"

text \<open>\<open>d[k]\<close> with a string key: a missing key raises, and so does any other container.\<close>

fun py_getitem :: "'t pyval \<Rightarrow> pystr \<Rightarrow> pyexc + 't pyval" where
  "py_getitem (PyDict kvs) k = (case map_of kvs k of None \<Rightarrow> Inl (KeyError k) | Some v \<Rightarrow> Inr v)"
| "py_getitem _ k = Inl TypeError"

text \<open>
  \<open>for x in v\<close>: a list gives its elements, a dict its keys, a string its characters;
  nothing else is iterable.
\<close>

fun py_iter :: "'t pyval \<Rightarrow> pyexc + 't pyval list" where
  "py_iter (PyList xs) = Inr xs"
| "py_iter (PyDict kvs) = Inr (map (\<lambda>kv. PyStr (fst kv)) kvs)"
| "py_iter (PyStr s) = Inr (map (\<lambda>c. PyStr [c]) s)"
| "py_iter _ = Inl TypeError"

fun py_strip :: "'t pyval \<Rightarrow> pyexc + 't pyval" where
  "py_strip (PyStr s) = Inr (PyStr (strip s))"
| "py_strip _ = Inl AttributeError"

section \<open>The transcript formatter\<close>

text \<open>
  The body of the inner loop of \<open>convert_to_json_format\<close>: the dict literal evaluates
  \<open>word_info["word"].strip()\<close>, then \<open>word_info["start"]\<close>, then \<open>word_info["end"]\<close>.
\<close>

definition word_record :: "'t pyval \<Rightarrow> pyexc + 't pyval" where
  "word_record word_info =
     (case py_getitem word_info (py ''word'') of
        Inl e \<Rightarrow> Inl e
      | Inr w \<Rightarrow>
          (case py_strip w of
             Inl e \<Rightarrow> Inl e
           | Inr w' \<Rightarrow>
               (case py_getitem word_info (py ''start'') of
                  Inl e \<Rightarrow> Inl e
                | Inr s \<Rightarrow>
                    (case py_getitem word_info (py ''end'') of
                       Inl e \<Rightarrow> Inl e
                     | Inr e' \<Rightarrow>
                         Inr (PyDict [(py ''word'', w'), (py ''start'', s), (py ''end'', e')])))))"

text \<open>The inner loop: append one record per word entry to \<open>words\<close>.\<close>

fun append_words :: "'t pyval list \<Rightarrow> 't pyval list \<Rightarrow> pyexc + 't pyval list" where
  "append_words words [] = Inr words"
| "append_words words (word_info # rest) =
     (case word_record word_info of
        Inl e \<Rightarrow> Inl e
      | Inr r \<Rightarrow> append_words (words @ [r]) rest)"

text \<open>The outer loop: \<open>segment.get("words", [])\<close> is looked up when the segment is reached.\<close>

fun append_segments :: "'t pyval list \<Rightarrow> 't pyval list \<Rightarrow> pyexc + 't pyval list" where
  "append_segments words [] = Inr words"
| "append_segments words (segment # rest) =
     (case py_get segment (py ''words'') (PyList []) of
        Inl e \<Rightarrow> Inl e
      | Inr ws \<Rightarrow>
          (case py_iter ws of
             Inl e \<Rightarrow> Inl e
           | Inr infos \<Rightarrow>
               (case append_words words infos of
                  Inl e \<Rightarrow> Inl e
                | Inr words' \<Rightarrow> append_segments words' rest)))"

definition convert_to_json_format :: "'t pyval \<Rightarrow> pyexc + 't pyval" where
  "convert_to_json_format whisper_result =
     (case py_get whisper_result (py ''segments'') (PyList []) of
        Inl e \<Rightarrow> Inl e
      | Inr segs \<Rightarrow>
          (case py_iter segs of
             Inl e \<Rightarrow> Inl e
           | Inr segments \<Rightarrow>
               (case append_segments [] segments of
                  Inl e \<Rightarrow> Inl e
                | Inr words \<Rightarrow> Inr (PyDict [(py ''words'', PyList words)]))))"

section \<open>The JSON writer\<close>

text \<open>
  \<open>json.dump(json_data, f, indent=2)\<close> runs the pure-Python encoder with its defaults
  (\<open>ensure_ascii=True\<close>, separators \<open>","\<close> and \<open>": "\<close>) and writes each chunk to the
  file as it is produced.  An encoder run is therefore the text emitted so far together
  with the exception that stopped it, if any.
\<close>

type_synonym emit = "pystr \<times> pyexc option"

definition emit_text :: "pystr \<Rightarrow> emit" where
  "emit_text s = (s, None)"

definition emit_raise :: "pyexc \<Rightarrow> emit" where
  "emit_raise e = ([], Some e)"

fun emit_seq :: "emit \<Rightarrow> emit \<Rightarrow> emit" where
  "emit_seq (a, None) (b, r) = (a @ b, r)"
| "emit_seq (a, Some e) _ = (a, Some e)"

definition hex_digit :: "nat \<Rightarrow> nat" where
  "hex_digit d = (if d < 10 then 48 + d else 87 + d)"

text \<open>\<open>'{0:04x}'.format(n)\<close> for \<open>n < 0x10000\<close>.\<close>

definition hex4 :: "nat \<Rightarrow> pystr" where
  "hex4 n = [hex_digit (n div 4096 mod 16), hex_digit (n div 256 mod 16),
             hex_digit (n div 16 mod 16), hex_digit (n mod 16)]"

text \<open>
  The replacement of one character by \<open>py_encode_basestring_ascii\<close>: the short escapes,
  printable ASCII unchanged, everything else as \<open>\uXXXX\<close>, a code point beyond the basic
  plane as a surrogate pair.
\<close>

definition escape_char :: "nat \<Rightarrow> pystr" where
  "escape_char c =
     (if c = 92 then [92, 92]
      else if c = 34 then [92, 34]
      else if c = 8 then [92, 98]
      else if c = 12 then [92, 102]
      else if c = 10 then [92, 110]
      else if c = 13 then [92, 114]
      else if c = 9 then [92, 116]
      else if 32 \<le> c \<and> c \<le> 126 then [c]
      else if c < 65536 then [92, 117] @ hex4 c
      else (let n = c - 65536;
                s1 = 55296 + (n div 1024) mod 1024;
                s2 = 56320 + n mod 1024
            in [92, 117] @ hex4 s1 @ [92, 117] @ hex4 s2))"

definition encode_basestring_ascii :: "pystr \<Rightarrow> pystr" where
  "encode_basestring_ascii s = [34] @ concat (map escape_char s) @ [34]"

definition newline_indent :: "nat \<Rightarrow> pystr" where
  "newline_indent level = 10 # replicate (2 * level) 32"

text \<open>
  The encoder proper.  \<open>float_repr\<close> renders a number.  In a list or a dict the opening
  bracket or the separator is emitted before the value is looked at, so it is already in
  the file when the value turns out not to be serialisable.
\<close>

fun iterencode :: "('t \<Rightarrow> pystr) \<Rightarrow> nat \<Rightarrow> 't pyval \<Rightarrow> emit"
  and iterencode_list :: "('t \<Rightarrow> pystr) \<Rightarrow> nat \<Rightarrow> bool \<Rightarrow> 't pyval list \<Rightarrow> emit"
  and iterencode_dict :: "('t \<Rightarrow> pystr) \<Rightarrow> nat \<Rightarrow> bool \<Rightarrow> (pystr \<times> 't pyval) list \<Rightarrow> emit"
where
  "iterencode float_repr level PyNone = emit_text (py ''null'')"
| "iterencode float_repr level (PyNum t) = emit_text (float_repr t)"
| "iterencode float_repr level (PyStr s) = emit_text (encode_basestring_ascii s)"
| "iterencode float_repr level (PyList []) = emit_text (py ''[]'')"
| "iterencode float_repr level (PyList (x # xs)) =
     emit_seq (iterencode_list float_repr (level + 1) True (x # xs))
              (emit_text (newline_indent level @ py '']''))"
| "iterencode float_repr level (PyDict []) = emit_text (py ''{}'')"
| "iterencode float_repr level (PyDict (kv # kvs)) =
     emit_seq (emit_text (py ''{'' @ newline_indent (level + 1)))
       (emit_seq (iterencode_dict float_repr (level + 1) True (kv # kvs))
                 (emit_text (newline_indent level @ py ''}'')))"
| "iterencode float_repr level PyObject = emit_raise TypeError"
| "iterencode_list float_repr level first [] = emit_text []"
| "iterencode_list float_repr level first (x # xs) =
     emit_seq (emit_text (if first then py ''['' @ newline_indent level
                          else py '','' @ newline_indent level))
       (emit_seq (iterencode float_repr level x)
                 (iterencode_list float_repr level False xs))"
| "iterencode_dict float_repr level first [] = emit_text []"
| "iterencode_dict float_repr level first (kv # kvs) =
     emit_seq (emit_text ((if first then [] else py '','' @ newline_indent level)
                          @ encode_basestring_ascii (fst kv) @ py '': ''))
       (emit_seq (iterencode float_repr level (snd kv))
                 (iterencode_dict float_repr level False kvs))"

section \<open>The world of one run\<close>

text \<open>
  The program touches the file system, the console and two external collaborators.  The
  world is the file system (a path has a content or does not exist), the lines printed so
  far, and the log of the calls that left the process.
\<close>

type_synonym data = "nat list"

datatype call =
    Spawn "pystr list"
  | LoadModel pystr
  | Transcribe pystr
  | OpenWrite pystr
  | Remove pystr

record world =
  files :: "pystr \<rightharpoonup> data"
  console :: "pystr list"
  calls :: "call list"

text \<open>
  What \<open>subprocess.run\<close> can come back with: the tool could not be started (the call
  raises), or it ran and left a return code, its diagnostics on stderr, and possibly a
  file at its output path.
\<close>

datatype effect = Untouched | Wrote data

datatype proc = SpawnError pyexc | Completed int pystr effect

text \<open>
  The collaborators are parameters of the model.  The media tool is a function of its
  command line and of the content of the file named after \<open>-i\<close>; the recogniser is a
  function of the content of the clip.  \<open>writable\<close> says whether \<open>open(path, 'w')\<close>
  succeeds, \<open>write_limit\<close> how many characters the device takes at that path before a
  write fails (\<open>None\<close>: as many as are written); \<open>float_repr\<close> and \<open>format_2f\<close>
  render a number as \<open>repr\<close> and as \<open>'{:.2f}'\<close> do.
\<close>

record 't env =
  subprocess :: "pystr list \<Rightarrow> data option \<Rightarrow> proc"
  load_model :: "pystr \<Rightarrow> pyexc option"
  transcribe :: "data option \<Rightarrow> pyexc + 't pyval"
  writable :: "pystr \<Rightarrow> bool"
  write_limit :: "pystr \<Rightarrow> nat option"
  float_repr :: "'t \<Rightarrow> pystr"
  format_2f :: "'t \<Rightarrow> pystr"

definition print :: "pystr \<Rightarrow> world \<Rightarrow> world" where
  "print line w = w\<lparr>console := console w @ [line]\<rparr>"

definition log_call :: "call \<Rightarrow> world \<Rightarrow> world" where
  "log_call c w = w\<lparr>calls := calls w @ [c]\<rparr>"

definition exists :: "pystr \<Rightarrow> world \<Rightarrow> bool" where
  "exists path w \<longleftrightarrow> files w path \<noteq> None"

definition remove :: "pystr \<Rightarrow> world \<Rightarrow> world" where
  "remove path w = log_call (Remove path) (w\<lparr>files := (files w)(path := None)\<rparr>)"

fun arg_after :: "pystr \<Rightarrow> pystr list \<Rightarrow> pystr option" where
  "arg_after k (a # b # rest) = (if a = k then Some b else arg_after k (b # rest))"
| "arg_after k _ = None"

definition input_content :: "pystr list \<Rightarrow> world \<Rightarrow> data option" where
  "input_content cmd w = (case arg_after (py ''-i'') cmd of None \<Rightarrow> None | Some p \<Rightarrow> files w p)"

text \<open>
  \<open>subprocess.run(cmd, capture_output=True, text=True)\<close> for the media tool: the output
  path is the last argument.
\<close>

definition subprocess_run :: "'t env \<Rightarrow> pystr list \<Rightarrow> world \<Rightarrow> (pyexc + int \<times> pystr) \<times> world" where
  "subprocess_run E cmd w =
     (let w1 = log_call (Spawn cmd) w in
      case subprocess E cmd (input_content cmd w) of
        SpawnError e \<Rightarrow> (Inl e, w1)
      | Completed returncode stderr Untouched \<Rightarrow> (Inr (returncode, stderr), w1)
      | Completed returncode stderr (Wrote d) \<Rightarrow>
          (Inr (returncode, stderr), w1\<lparr>files := (files w1)(last cmd \<mapsto> d)\<rparr>))"

section \<open>The clip extractor\<close>

definition copy_cmd :: "pystr \<Rightarrow> pystr \<Rightarrow> pystr list" where
  "copy_cmd audio_path output_path =
     [py ''ffmpeg'', py ''-i'', audio_path, py ''-t'', py ''60'',
      py ''-acodec'', py ''copy'', py ''-y'', output_path]"

definition reencode_cmd :: "pystr \<Rightarrow> pystr \<Rightarrow> pystr list" where
  "reencode_cmd audio_path output_path =
     [py ''ffmpeg'', py ''-i'', audio_path, py ''-t'', py ''60'',
      py ''-acodec'', py ''libmp3lame'', py ''-y'', output_path]"

definition extract_first_60_seconds ::
  "'t env \<Rightarrow> pystr \<Rightarrow> pystr \<Rightarrow> world \<Rightarrow> (pyexc + pystr) \<times> world" where
  "extract_first_60_seconds E audio_path output_path w =
     (let w1 = print (py ''Extracting first 60 seconds from: '' @ audio_path) w in
      case subprocess_run E (copy_cmd audio_path output_path) w1 of
        (Inl e, w2) \<Rightarrow> (Inl e, w2)
      | (Inr (returncode, stderr), w2) \<Rightarrow>
          if returncode \<noteq> 0 then
            (let w3 = print (py ''Codec copy failed, re-encoding...'') w2 in
             case subprocess_run E (reencode_cmd audio_path output_path) w3 of
               (Inl e, w4) \<Rightarrow> (Inl e, w4)
             | (Inr (returncode', stderr'), w4) \<Rightarrow>
                 if returncode' \<noteq> 0 then (Inl (Exception (py ''ffmpeg failed: '' @ stderr')), w4)
                 else (Inr output_path, print (py ''Saved to: '' @ output_path) w4))
          else (Inr output_path, print (py ''Saved to: '' @ output_path) w2))"

section \<open>The recogniser\<close>

definition transcribe_audio :: "'t env \<Rightarrow> pystr \<Rightarrow> world \<Rightarrow> (pyexc + 't pyval) \<times> world" where
  "transcribe_audio E audio_path w =
     (let w1 = print (10 # py ''Loading Whisper model (this may take a moment on first run)...'') w;
          w2 = log_call (LoadModel (py ''base'')) w1 in
      case load_model E (py ''base'') of
        Some e \<Rightarrow> (Inl e, w2)
      | None \<Rightarrow>
          (let w3 = print (py ''Transcribing audio: '' @ audio_path) w2;
               w4 = print (py ''This may take a minute...'') w3;
               w5 = log_call (Transcribe audio_path) w4
           in (transcribe E (files w5 audio_path), w5)))"

section \<open>The run\<close>

text \<open>
  \<open>with open(output_json, 'w') as f: json.dump(json_data, f, indent=2)\<close>: opening
  truncates the file, then the chunks are written; leaving the block closes the file, with
  whatever was written, also when the encoder raised.  When the device takes fewer
  characters than were written, the file keeps that many and the block is left with
  \<open>OSError\<close>.
\<close>

definition written :: "'t env \<Rightarrow> pystr \<Rightarrow> 't pyval \<Rightarrow> emit" where
  "written E path json_data =
     (case iterencode (float_repr E) 0 json_data of
        (out, r) \<Rightarrow>
          (case write_limit E path of
             None \<Rightarrow> (out, r)
           | Some n \<Rightarrow> if n < length out then (take n out, Some OSError) else (out, r)))"

definition write_json :: "'t env \<Rightarrow> pystr \<Rightarrow> 't pyval \<Rightarrow> world \<Rightarrow> (pyexc + unit) \<times> world" where
  "write_json E path json_data w =
     (let w1 = log_call (OpenWrite path) w in
      if \<not> writable E path then (Inl PermissionError, w1)
      else
        (let w2 = w1\<lparr>files := (files w1)(path \<mapsto> [])\<rparr> in
         case written E path json_data of
           (out, None) \<Rightarrow> (Inr (), w2\<lparr>files := (files w2)(path \<mapsto> out)\<rparr>)
         | (out, Some e) \<Rightarrow> (Inl e, w2\<lparr>files := (files w2)(path \<mapsto> out)\<rparr>)))"

text \<open>\<open>str(n)\<close> for a length.\<close>

fun str_nat :: "nat \<Rightarrow> pystr" where
  "str_nat n = (if n < 10 then [48 + n] else str_nat (n div 10) @ [48 + n mod 10])"

declare str_nat.simps [simp del]

text \<open>\<open>len(v)\<close> and \<open>v[:10]\<close>.\<close>

fun py_len :: "'t pyval \<Rightarrow> pyexc + nat" where
  "py_len (PyList xs) = Inr (length xs)"
| "py_len (PyDict kvs) = Inr (length kvs)"
| "py_len (PyStr s) = Inr (length s)"
| "py_len _ = Inl TypeError"

fun py_slice10 :: "'t pyval \<Rightarrow> pyexc + 't pyval" where
  "py_slice10 (PyList xs) = Inr (PyList (take 10 xs))"
| "py_slice10 (PyStr s) = Inr (PyStr (take 10 s))"
| "py_slice10 _ = Inl TypeError"

text \<open>
  The replacement fields of the preview line.  \<open>{v}\<close> of a string is the string; the
  word of a record is always a string, since \<open>strip\<close> returned it, and the model stops
  with \<open>TypeError\<close> on any other value, which no run reaches.  \<open>{v:.2f}\<close> needs a
  number: a string raises \<open>ValueError\<close>, the other values \<open>TypeError\<close>.
\<close>

fun format_plain :: "'t pyval \<Rightarrow> pyexc + pystr" where
  "format_plain (PyStr s) = Inr s"
| "format_plain _ = Inl TypeError"

fun format_fixed :: "'t env \<Rightarrow> 't pyval \<Rightarrow> pyexc + pystr" where
  "format_fixed E (PyNum t) = Inr (format_2f E t)"
| "format_fixed E (PyStr s) = Inl ValueError"
| "format_fixed E _ = Inl TypeError"

definition preview_line :: "'t env \<Rightarrow> 't pyval \<Rightarrow> pyexc + pystr" where
  "preview_line E word =
     (case py_getitem word (py ''word'') of
        Inl e \<Rightarrow> Inl e
      | Inr w \<Rightarrow>
          (case format_plain w of
             Inl e \<Rightarrow> Inl e
           | Inr ws \<Rightarrow>
               (case py_getitem word (py ''start'') of
                  Inl e \<Rightarrow> Inl e
                | Inr s \<Rightarrow>
                    (case format_fixed E s of
                       Inl e \<Rightarrow> Inl e
                     | Inr ss \<Rightarrow>
                         (case py_getitem word (py ''end'') of
                            Inl e \<Rightarrow> Inl e
                          | Inr e' \<Rightarrow>
                              (case format_fixed E e' of
                                 Inl e \<Rightarrow> Inl e
                               | Inr es \<Rightarrow>
                                   Inr (py ''  '' @ ws @ py '' ('' @ ss @ py ''s - '' @ es
                                        @ py ''s)'')))))))"

fun preview :: "'t env \<Rightarrow> 't pyval list \<Rightarrow> world \<Rightarrow> (pyexc + unit) \<times> world" where
  "preview E [] w = (Inr (), w)"
| "preview E (word # rest) w =
     (case preview_line E word of
        Inl e \<Rightarrow> (Inl e, w)
      | Inr line \<Rightarrow> preview E rest (print line w))"

definition audio_file :: pystr where
  "audio_file = py ''public/The Picture of Dorian Gray by Oscar Wilde  Full audiobook.mp3''"

definition temp_audio :: pystr where
  "temp_audio = py ''temp_60sec.mp3''"

definition output_json :: pystr where
  "output_json = py ''public/transcription.json''"

text \<open>The summary after the write, lines 120 to 125 of the source.\<close>

definition report :: "'t env \<Rightarrow> 't pyval \<Rightarrow> world \<Rightarrow> (pyexc + unit) \<times> world" where
  "report E json_data w =
     (case py_getitem json_data (py ''words'') of
        Inl e \<Rightarrow> (Inl e, w)
      | Inr ws \<Rightarrow>
          (case py_len ws of
             Inl e \<Rightarrow> (Inl e, w)
           | Inr word_count \<Rightarrow>
               (let w1 = print ([10, 226, 339, 8230] @ py '' Success! Transcribed '' @ str_nat word_count
                                @ py '' words from first 60 seconds'') w;
                    w2 = print ([240, 376, 8220, 8222] @ py '' Saved to: '' @ output_json) w1;
                    w3 = print (10 # py ''First few words:'') w2
                in case py_slice10 ws of
                     Inl e \<Rightarrow> (Inl e, w3)
                   | Inr first_words \<Rightarrow>
                       (case py_iter first_words of
                          Inl e \<Rightarrow> (Inl e, w3)
                        | Inr l \<Rightarrow> preview E l w3))))"

text \<open>The body of the \<open>try\<close> block of \<open>main\<close>.\<close>

definition main_try :: "'t env \<Rightarrow> world \<Rightarrow> (pyexc + unit) \<times> world" where
  "main_try E w =
     (case extract_first_60_seconds E audio_file temp_audio w of
        (Inl e, w1) \<Rightarrow> (Inl e, w1)
      | (Inr _, w1) \<Rightarrow>
          (case transcribe_audio E temp_audio w1 of
             (Inl e, w2) \<Rightarrow> (Inl e, w2)
           | (Inr result, w2) \<Rightarrow>
               (case convert_to_json_format result of
                  Inl e \<Rightarrow> (Inl e, w2)
                | Inr json_data \<Rightarrow>
                    (let w3 = print (10 # py ''Saving transcription to: '' @ output_json) w2 in
                     case write_json E output_json json_data w3 of
                       (Inl e, w4) \<Rightarrow> (Inl e, w4)
                     | (Inr _, w4) \<Rightarrow> report E json_data w4))))"

text \<open>The \<open>finally\<close> block.\<close>

definition main_finally :: "world \<Rightarrow> world" where
  "main_finally w =
     (if exists temp_audio w
      then print ([10, 240, 376, 167, 185] @ py '' Cleaned up temporary file'') (remove temp_audio w)
      else w)"

text \<open>How the process ends: \<open>main\<close> returns, \<open>sys.exit\<close> is called, or an exception is left uncaught.\<close>

datatype outcome = Returned | SysExit int | Uncaught pyexc

fun exit_status :: "outcome \<Rightarrow> int" where
  "exit_status Returned = 0"
| "exit_status (SysExit n) = n"
| "exit_status (Uncaught e) = 1"

definition main :: "'t env \<Rightarrow> world \<Rightarrow> outcome \<times> world" where
  "main E w =
     (if \<not> exists audio_file w then
        (SysExit 1,
         print (10 # py ''Please make sure the audio file is in the public/ folder'')
           (print (py ''ERROR: Audio file not found: '' @ audio_file) w))
      else
        (case main_try E w of
           (Inl e, w1) \<Rightarrow> (Uncaught e, main_finally w1)
         | (Inr _, w1) \<Rightarrow> (Returned, main_finally w1)))"

section \<open>The engine's result, as the specification describes it\<close>

text \<open>
  The specification speaks of a result that is an ordered sequence of segments, each an
  ordered sequence of word entries with a text, a start time and an end time.  These
  functions read that shape off a value (\<open>None\<close> when the value does not have it), so
  that the formatter can be compared with the flattening the specification asks for.
\<close>

definition engine_word :: "'t pyval \<Rightarrow> (pystr \<times> 't pyval \<times> 't pyval) option" where
  "engine_word v =
     (case v of
        PyDict kvs \<Rightarrow>
          (case map_of kvs (py ''word'') of
             Some (PyStr t) \<Rightarrow>
               (case map_of kvs (py ''start'') of
                  Some s \<Rightarrow>
                    (case map_of kvs (py ''end'') of
                       Some e \<Rightarrow> Some (t, s, e)
                     | None \<Rightarrow> None)
                | None \<Rightarrow> None)
           | _ \<Rightarrow> None)
      | _ \<Rightarrow> None)"

definition engine_segment :: "'t pyval \<Rightarrow> (pystr \<times> 't pyval \<times> 't pyval) list option" where
  "engine_segment v =
     (case v of
        PyDict kvs \<Rightarrow>
          (case map_of kvs (py ''words'') of
             Some (PyList ws) \<Rightarrow> those (map engine_word ws)
           | _ \<Rightarrow> None)
      | _ \<Rightarrow> None)"

definition engine_result :: "'t pyval \<Rightarrow> (pystr \<times> 't pyval \<times> 't pyval) list list option" where
  "engine_result v =
     (case v of
        PyDict kvs \<Rightarrow>
          (case map_of kvs (py ''segments'') of
             Some (PyList ss) \<Rightarrow> those (map engine_segment ss)
           | _ \<Rightarrow> None)
      | _ \<Rightarrow> None)"

definition json_word :: "pystr \<times> 't pyval \<times> 't pyval \<Rightarrow> 't pyval" where
  "json_word entry =
     (case entry of (t, s, e) \<Rightarrow>
        PyDict [(py ''word'', PyStr (strip t)), (py ''start'', s), (py ''end'', e)])"

definition transcript :: "'t pyval list \<Rightarrow> 't pyval" where
  "transcript ws = PyDict [(py ''words'', PyList ws)]"

text \<open>All the word entries the formatter iterates over, in encounter order.\<close>

definition segment_entries :: "'t pyval \<Rightarrow> 't pyval list" where
  "segment_entries segment =
     (case py_get segment (py ''words'') (PyList []) of
        Inl e \<Rightarrow> []
      | Inr ws \<Rightarrow> (case py_iter ws of Inl e \<Rightarrow> [] | Inr infos \<Rightarrow> infos))"

definition word_entries :: "'t pyval \<Rightarrow> 't pyval list" where
  "word_entries whisper_result =
     (case py_get whisper_result (py ''segments'') (PyList []) of
        Inl e \<Rightarrow> []
      | Inr segs \<Rightarrow>
          (case py_iter segs of
             Inl e \<Rightarrow> []
           | Inr segments \<Rightarrow> concat (map segment_entries segments)))"

text \<open>
  The timing of a word: of a record of the transcript, and of an entry of the engine whose
  times are numbers.  A result is chronological when the starts are in order inside every
  segment and every word of an earlier segment starts no later than every word of a later one.
\<close>

definition record_times :: "'t pyval \<Rightarrow> ('t \<times> 't) option" where
  "record_times word =
     (case py_getitem word (py ''start'') of
        Inr (PyNum a) \<Rightarrow>
          (case py_getitem word (py ''end'') of
             Inr (PyNum b) \<Rightarrow> Some (a, b)
           | _ \<Rightarrow> None)
      | _ \<Rightarrow> None)"

definition timed_word :: "pystr \<times> 't pyval \<times> 't pyval \<Rightarrow> ('t \<times> 't) option" where
  "timed_word entry =
     (case entry of
        (t, PyNum a, PyNum b) \<Rightarrow> Some (a, b)
      | _ \<Rightarrow> None)"

definition chronological :: "('t::ord \<times> 't) list list \<Rightarrow> bool" where
  "chronological segs \<longleftrightarrow>
     list_all (\<lambda>seg. sorted_wrt (\<lambda>x y. fst x \<le> fst y) seg) segs \<and>
     sorted_wrt (\<lambda>s1 s2. \<forall>x \<in> set s1. \<forall>y \<in> set s2. fst x \<le> fst y) segs"

text \<open>
  The same shape with the keys allowed to be missing: the containers have the types the
  engine gives them, a missing \<open>"segments"\<close> or \<open>"words"\<close> reads as no entries, and a
  word entry keeps which of its three keys are there.  \<open>expected_words\<close> is what the
  formatter is expected to make of the entries: the key of the first entry that lacks one,
  or all the entries.
\<close>

type_synonym 't entry = "pystr option \<times> 't pyval option \<times> 't pyval option"

definition word_shape :: "'t pyval \<Rightarrow> 't entry option" where
  "word_shape v =
     (case v of
        PyDict kvs \<Rightarrow>
          (case map_of kvs (py ''word'') of
             None \<Rightarrow> Some (None, map_of kvs (py ''start''), map_of kvs (py ''end''))
           | Some (PyStr t) \<Rightarrow> Some (Some t, map_of kvs (py ''start''), map_of kvs (py ''end''))
           | _ \<Rightarrow> None)
      | _ \<Rightarrow> None)"

definition segment_shape :: "'t pyval \<Rightarrow> 't entry list option" where
  "segment_shape v =
     (case v of
        PyDict kvs \<Rightarrow>
          (case map_of kvs (py ''words'') of
             None \<Rightarrow> Some []
           | Some (PyList ws) \<Rightarrow> those (map word_shape ws)
           | _ \<Rightarrow> None)
      | _ \<Rightarrow> None)"

definition result_shape :: "'t pyval \<Rightarrow> 't entry list list option" where
  "result_shape v =
     (case v of
        PyDict kvs \<Rightarrow>
          (case map_of kvs (py ''segments'') of
             None \<Rightarrow> Some []
           | Some (PyList ss) \<Rightarrow> those (map segment_shape ss)
           | _ \<Rightarrow> None)
      | _ \<Rightarrow> None)"

fun entry_outcome :: "'t entry \<Rightarrow> pystr + (pystr \<times> 't pyval \<times> 't pyval)" where
  "entry_outcome (None, s, e) = Inl (py ''word'')"
| "entry_outcome (Some t, None, e) = Inl (py ''start'')"
| "entry_outcome (Some t, Some s, None) = Inl (py ''end'')"
| "entry_outcome (Some t, Some s, Some e) = Inr (t, s, e)"

fun expected_words :: "'t entry list \<Rightarrow> pystr + (pystr \<times> 't pyval \<times> 't pyval) list" where
  "expected_words [] = Inr []"
| "expected_words (x # xs) =
     (case entry_outcome x of
        Inl k \<Rightarrow> Inl k
      | Inr y \<Rightarrow> (case expected_words xs of Inl k \<Rightarrow> Inl k | Inr ys \<Rightarrow> Inr (y # ys)))"

definition incomplete :: "'t entry \<Rightarrow> bool" where
  "incomplete x \<longleftrightarrow> fst x = None \<or> fst (snd x) = None \<or> snd (snd x) = None"

text \<open>What the output file may contain, and the digits of an escape.\<close>

definition is_ascii :: "nat \<Rightarrow> bool" where
  "is_ascii c \<longleftrightarrow> c < 128"

definition is_hex :: "nat \<Rightarrow> bool" where
  "is_hex c \<longleftrightarrow> (48 \<le> c \<and> c \<le> 57) \<or> (97 \<le> c \<and> c \<le> 102)"

section \<open>Summaries of a run\<close>

text \<open>
  Names for what the claims about the run speak of: the calls a run adds to the log, whether
  the stream copy came back with a non-zero return code, what the extractor returns and what
  it leaves at the clip's path as functions of the input file and of the old clip, the
  transcript that the first three stages hand to the writer, and the content of the output
  path after the \<open>try\<close> block.
\<close>

definition new_calls :: "world \<Rightarrow> world \<Rightarrow> call list" where
  "new_calls w w' = drop (length (calls w)) (calls w')"

definition copy_failed :: "'t env \<Rightarrow> pystr \<Rightarrow> pystr \<Rightarrow> world \<Rightarrow> bool" where
  "copy_failed E audio_path output_path w =
     (case subprocess E (copy_cmd audio_path output_path) (files w audio_path) of
        SpawnError e \<Rightarrow> False
      | Completed returncode stderr fx \<Rightarrow> returncode \<noteq> 0)"

fun apply_effect :: "effect \<Rightarrow> data option \<Rightarrow> data option" where
  "apply_effect Untouched old = old"
| "apply_effect (Wrote d) old = Some d"

definition extract_outcome :: "'t env \<Rightarrow> pystr \<Rightarrow> pystr \<Rightarrow> data option \<Rightarrow> pyexc + pystr" where
  "extract_outcome E audio_path output_path inp =
     (case subprocess E (copy_cmd audio_path output_path) inp of
        SpawnError e \<Rightarrow> Inl e
      | Completed returncode stderr fx \<Rightarrow>
          if returncode \<noteq> 0 then
            (case subprocess E (reencode_cmd audio_path output_path) inp of
               SpawnError e \<Rightarrow> Inl e
             | Completed returncode' stderr' fx' \<Rightarrow>
                 if returncode' \<noteq> 0 then Inl (Exception (py ''ffmpeg failed: '' @ stderr'))
                 else Inr output_path)
          else Inr output_path)"

definition clip_after ::
  "'t env \<Rightarrow> pystr \<Rightarrow> pystr \<Rightarrow> data option \<Rightarrow> data option \<Rightarrow> data option" where
  "clip_after E audio_path output_path inp old =
     (case subprocess E (copy_cmd audio_path output_path) inp of
        SpawnError e \<Rightarrow> old
      | Completed returncode stderr fx \<Rightarrow>
          if returncode \<noteq> 0 then
            (case subprocess E (reencode_cmd audio_path output_path) inp of
               SpawnError e \<Rightarrow> apply_effect fx old
             | Completed returncode' stderr' fx' \<Rightarrow> apply_effect fx' (apply_effect fx old))
          else apply_effect fx old)"

definition blank_world :: world where
  "blank_world = \<lparr>files = Map.empty, console = [], calls = []\<rparr>"

definition formatted_data :: "'t env \<Rightarrow> world \<Rightarrow> pyexc + 't pyval" where
  "formatted_data E w =
     (case extract_first_60_seconds E audio_file temp_audio w of
        (Inl e, w1) \<Rightarrow> Inl e
      | (Inr _, w1) \<Rightarrow>
          (case transcribe_audio E temp_audio w1 of
             (Inl e, w2) \<Rightarrow> Inl e
           | (Inr result, w2) \<Rightarrow> convert_to_json_format result))"

definition output_after :: "'t env \<Rightarrow> world \<Rightarrow> data option" where
  "output_after E w =
     (case formatted_data E w of
        Inl e \<Rightarrow> files w output_json
      | Inr json_data \<Rightarrow>
          if writable E output_json then Some (fst (written E output_json json_data))
          else files w output_json)"

text \<open>
  A media tool that never returns 0 without having written its output file.
\<close>

definition writes_on_success :: "'t env \<Rightarrow> bool" where
  "writes_on_success E \<longleftrightarrow> (\<forall>cmd inp err. subprocess E cmd inp \<noteq> Completed 0 err Untouched)"

section \<open>The output format, as JSON defines it\<close>

text \<open>
  What an escaped character has to look like, read from the output back to the character:
  the value of a run of hexadecimal digits, the escape \<open>\u\<close> plus four digits that
  spell a code unit, the two UTF-16 surrogates of a code point beyond the basic plane, and
  the escape each character must get when only ASCII may be written.  The layout of the
  output file is the one of the interface description: an object with the key
  \<open>"words"\<close> and a list of objects with the keys \<open>"word"\<close>, \<open>"start"\<close> and
  \<open>"end"\<close>, indented by two spaces per level; \<open>tokens\<close> are the three rendered
  values of one word, the text escaped and quoted.
\<close>

definition hex_digit_value :: "nat \<Rightarrow> nat" where
  "hex_digit_value c = (if c \<le> 57 then c - 48 else c - 87)"

definition hex_value :: "pystr \<Rightarrow> nat" where
  "hex_value ds = foldl (\<lambda>acc d. 16 * acc + hex_digit_value d) 0 ds"

definition is_u_escape :: "nat \<Rightarrow> pystr \<Rightarrow> bool" where
  "is_u_escape u out \<longleftrightarrow>
     length out = 6 \<and> take 2 out = [92, 117] \<and> list_all is_hex (drop 2 out)
     \<and> hex_value (drop 2 out) = u"

definition high_surrogate :: "nat \<Rightarrow> nat" where
  "high_surrogate c = 55296 + (c - 65536) div 1024"

definition low_surrogate :: "nat \<Rightarrow> nat" where
  "low_surrogate c = 56320 + (c - 65536) mod 1024"

definition is_escape_of :: "nat \<Rightarrow> pystr \<Rightarrow> bool" where
  "is_escape_of c out \<longleftrightarrow>
     (if c = 34 then out = [92, 34]
      else if c = 92 then out = [92, 92]
      else if c = 8 then out = [92, 98]
      else if c = 9 then out = [92, 116]
      else if c = 10 then out = [92, 110]
      else if c = 12 then out = [92, 102]
      else if c = 13 then out = [92, 114]
      else if 32 \<le> c \<and> c \<le> 126 then out = [c]
      else if c < 65536 then is_u_escape c out
      else is_u_escape (high_surrogate c) (take 6 out)
           \<and> is_u_escape (low_surrogate c) (drop 6 out))"

definition timed_record :: "pystr \<times> 't \<times> 't \<Rightarrow> 't pyval" where
  "timed_record entry =
     (case entry of (w, a, b) \<Rightarrow>
        PyDict [(py ''word'', PyStr w), (py ''start'', PyNum a), (py ''end'', PyNum b)])"

definition record_text :: "pystr \<times> pystr \<times> pystr \<Rightarrow> pystr" where
  "record_text tokens =
     (case tokens of (word_token, start_token, end_token) \<Rightarrow>
        replicate 4 32 @ py ''{'' @ [10]
        @ replicate 6 32 @ [34] @ py ''word'' @ [34] @ py '': '' @ word_token @ py '','' @ [10]
        @ replicate 6 32 @ [34] @ py ''start'' @ [34] @ py '': '' @ start_token @ py '','' @ [10]
        @ replicate 6 32 @ [34] @ py ''end'' @ [34] @ py '': '' @ end_token @ [10]
        @ replicate 4 32 @ py ''}'')"

fun transcript_text :: "(pystr \<times> pystr \<times> pystr) list \<Rightarrow> pystr" where
  "transcript_text [] =
     py ''{'' @ [10] @ replicate 2 32 @ [34] @ py ''words'' @ [34] @ py '': []'' @ [10] @ py ''}''"
| "transcript_text (r # rs) =
     py ''{'' @ [10] @ replicate 2 32 @ [34] @ py ''words'' @ [34] @ py '': ['' @ [10]
     @ record_text r @ concat (map (\<lambda>r'. py '','' @ [10] @ record_text r') rs)
     @ [10] @ replicate 2 32 @ py '']'' @ [10] @ py ''}''"

definition timed_transcript :: "(pystr \<times> 't \<times> 't) list \<Rightarrow> 't pyval" where
  "timed_transcript es = PyDict [(py ''words'', PyList (map timed_record es))]"

definition tokens :: "('t \<Rightarrow> pystr) \<Rightarrow> pystr \<times> 't \<times> 't \<Rightarrow> pystr \<times> pystr \<times> pystr" where
  "tokens fr entry =
     (case entry of (w, a, b) \<Rightarrow> (encode_basestring_ascii w, fr a, fr b))"

section \<open>Example inputs\<close>

text \<open>The scenario of the specification: one word with a leading blank, one empty segment.\<close>

definition example_result :: "real pyval" where
  "example_result =
     PyDict [(py ''segments'',
       PyList [PyDict [(py ''words'',
                 PyList [PyDict [(py ''word'', PyStr (py '' Hello'')),
                                 (py ''start'', PyNum 0), (py ''end'', PyNum (4 / 10))]])],
               PyDict [(py ''words'', PyList [])]])]"

text \<open>A result whose only word is made of blanks.\<close>

definition blank_result :: "real pyval" where
  "blank_result =
     PyDict [(py ''segments'',
       PyList [PyDict [(py ''words'',
                 PyList [PyDict [(py ''word'', PyStr (py ''  '')),
                                 (py ''start'', PyNum 1), (py ''end'', PyNum 2)]])]])]"

text \<open>Two segments in chronological order.\<close>

definition timed_result :: "real pyval" where
  "timed_result =
     PyDict [(py ''segments'',
       PyList [PyDict [(py ''words'',
                 PyList [PyDict [(py ''word'', PyStr (py '' The'')),
                                 (py ''start'', PyNum 0), (py ''end'', PyNum (32 / 100))],
                         PyDict [(py ''word'', PyStr (py '' Picture'')),
                                 (py ''start'', PyNum (32 / 100)), (py ''end'', PyNum (81 / 100))]])],
               PyDict [(py ''words'',
                 PyList [PyDict [(py ''word'', PyStr (py '' of'')),
                                 (py ''start'', PyNum 1), (py ''end'', PyNum (12 / 10))]])]])]"

text \<open>
  A result with keys the formatter does not read, a segment without \<open>"words"\<close> and a
  word entry without \<open>"end"\<close>.
\<close>

definition gappy_result :: "real pyval" where
  "gappy_result =
     PyDict [(py ''text'', PyStr (py ''a b'')),
             (py ''segments'',
       PyList [PyDict [(py ''id'', PyNum 0)],
               PyDict [(py ''words'',
                 PyList [PyDict [(py ''word'', PyStr (py '' a'')),
                                 (py ''start'', PyNum 0), (py ''end'', PyNum 1)],
                         PyDict [(py ''word'', PyStr (py '' b'')),
                                 (py ''start'', PyNum 1)]])]])]"

text \<open>
  A run in which everything works: the media tool writes a clip, the recogniser hears one
  word with a non-ASCII letter, and numbers are written in decimal.
\<close>

definition decimal_env :: "nat env" where
  "decimal_env =
     \<lparr> subprocess = (\<lambda>cmd inp. Completed 0 [] (Wrote [1, 2, 3])),
       load_model = (\<lambda>name. None),
       transcribe = (\<lambda>clip. Inr (PyDict [(py ''segments'', PyList [PyDict [(py ''words'',
                       PyList [PyDict [(py ''word'', PyStr [32, 99, 97, 102, 233]),
                                       (py ''start'', PyNum 0), (py ''end'', PyNum 1)]])]])])),
       writable = (\<lambda>path. True),
       write_limit = (\<lambda>path. None),
       float_repr = (\<lambda>n. str_nat n @ py ''.0''),
       format_2f = (\<lambda>n. str_nat n @ py ''.00'') \<rparr>"

text \<open>
  A run in which the media tool fails under both strategies, leaving a partial clip each
  time, and a world that holds the input file and nothing else.
\<close>

definition failing_env :: "nat env" where
  "failing_env = decimal_env\<lparr>subprocess := (\<lambda>cmd inp. Completed 1 (py ''Invalid data found'') (Wrote [0]))\<rparr>"

definition input_world :: world where
  "input_world = \<lparr>files = [audio_file \<mapsto> [1, 2, 3]], console = [], calls = []\<rparr>"

text \<open>
  A run on a device that takes five characters at the output path, started with an older
  output file in place, and the transcript that run formats.
\<close>

definition full_disk_env :: "nat env" where
  "full_disk_env = decimal_env\<lparr>write_limit := (\<lambda>path. Some 5)\<rparr>"

definition old_output_world :: world where
  "old_output_world =
     \<lparr>files = [audio_file \<mapsto> [1, 2, 3], output_json \<mapsto> py ''old''], console = [], calls = []\<rparr>"

definition cafe_transcript :: "nat pyval" where
  "cafe_transcript =
     PyDict [(py ''words'',
       PyList [PyDict [(py ''word'', PyStr [99, 97, 102, 233]),
                       (py ''start'', PyNum 0), (py ''end'', PyNum 1)]])]"

text \<open>A run in which the output file cannot be opened for writing.\<close>

definition readonly_env :: "nat env" where
  "readonly_env = decimal_env\<lparr>writable := (\<lambda>path. False)\<rparr>"

section \<open>Properties of the formatter\<close>

lemma py_eq_iff [simp]: "py a = py b \<longleftrightarrow> a = b"
  by (simp add: py_def inj_map_eq_map inj_of_char)

lemma word_record_engine:
  "engine_word v = Some (t, s, e) \<Longrightarrow> word_record v = Inr (json_word (t, s, e))"
  by (auto simp: engine_word_def word_record_def json_word_def
           split: pyval.splits option.splits)

lemma append_words_engine:
  "those (map engine_word ws) = Some es \<Longrightarrow>
   append_words acc ws = Inr (acc @ map json_word es)"
proof (induction ws arbitrary: acc es)
  case Nil
  then show ?case by simp
next
  case (Cons w ws)
  from Cons.prems obtain x xs where x: "engine_word w = Some x"
    and xs: "those (map engine_word ws) = Some xs" and es: "es = x # xs"
    by (auto split: option.splits)
  obtain t s e where "x = (t, s, e)" by (cases x)
  with x have "word_record w = Inr (json_word x)"
    by (simp add: word_record_engine)
  with Cons.IH [OF xs] es show ?case by simp
qed

lemma append_segments_engine:
  "those (map engine_segment ss) = Some segs \<Longrightarrow>
   append_segments acc ss = Inr (acc @ map json_word (concat segs))"
proof (induction ss arbitrary: acc segs)
  case Nil
  then show ?case by simp
next
  case (Cons sg ss)
  from Cons.prems obtain x xs where x: "engine_segment sg = Some x"
    and xs: "those (map engine_segment ss) = Some xs" and segs: "segs = x # xs"
    by (auto split: option.splits)
  from x obtain kvs ws where sg: "sg = PyDict kvs"
    and ws: "map_of kvs (py ''words'') = Some (PyList ws)"
    and th: "those (map engine_word ws) = Some x"
    by (auto simp: engine_segment_def split: pyval.splits option.splits)
  show ?case
    using Cons.IH [OF xs] segs sg ws append_words_engine [OF th]
    by simp
qed

lemma convert_engine:
  "engine_result r = Some segs \<Longrightarrow>
   convert_to_json_format r = Inr (transcript (map json_word (concat segs)))"
proof -
  assume a: "engine_result r = Some segs"
  then obtain kvs ss where r: "r = PyDict kvs"
    and ss: "map_of kvs (py ''segments'') = Some (PyList ss)"
    and th: "those (map engine_segment ss) = Some segs"
    by (auto simp: engine_result_def split: pyval.splits option.splits)
  show ?thesis
    using r ss append_segments_engine [OF th, of "[]"]
    by (simp add: convert_to_json_format_def transcript_def)
qed

lemma strip_decompose:
  "\<exists>pre suf. s = pre @ strip s @ suf \<and> list_all is_space pre \<and> list_all is_space suf"
proof -
  define d where "d = dropWhile is_space s"
  have 1: "s = takeWhile is_space s @ d"
    by (simp add: d_def)
  have "d = rev (takeWhile is_space (rev d) @ dropWhile is_space (rev d))"
    by (simp only: takeWhile_dropWhile_id rev_rev_ident)
  then have "d = rev (dropWhile is_space (rev d)) @ rev (takeWhile is_space (rev d))"
    by (simp only: rev_append)
  then have 2: "d = strip s @ rev (takeWhile is_space (rev d))"
    by (simp only: strip_def d_def)
  have 3: "list_all is_space (takeWhile is_space s)"
    by (simp add: list_all_iff) (meson set_takeWhileD)
  have 4: "list_all is_space (rev (takeWhile is_space (rev d)))"
    by (simp add: list_all_iff) (meson set_takeWhileD)
  from 1 2 have "s = takeWhile is_space s @ strip s @ rev (takeWhile is_space (rev d))"
    by simp
  with 3 4 show ?thesis by blast
qed

lemma strip_ends:
  "strip s \<noteq> [] \<Longrightarrow> \<not> is_space (hd (strip s)) \<and> \<not> is_space (last (strip s))"
proof -
  assume ne: "strip s \<noteq> []"
  define d where "d = dropWhile is_space s"
  have ne': "dropWhile is_space (rev d) \<noteq> []"
    using ne by (simp add: strip_def d_def)
  have l: "last (strip s) = hd (dropWhile is_space (rev d))"
    using ne' by (simp add: strip_def d_def last_rev)
  have nl: "\<not> is_space (last (strip s))"
    unfolding l using ne' by (rule hd_dropWhile)
  have "d = rev (takeWhile is_space (rev d) @ dropWhile is_space (rev d))"
    by (simp only: takeWhile_dropWhile_id rev_rev_ident)
  then have "d = rev (dropWhile is_space (rev d)) @ rev (takeWhile is_space (rev d))"
    by (simp only: rev_append)
  then have dd: "d = strip s @ rev (takeWhile is_space (rev d))"
    by (simp only: strip_def d_def)
  then have "hd d = hd (strip s)"
    using ne by (metis hd_append2)
  moreover have "d \<noteq> []" using dd ne by auto
  then have "\<not> is_space (hd d)"
    unfolding d_def by (rule hd_dropWhile)
  ultimately show ?thesis using nl by simp
qed

lemma strip_all_space: "list_all is_space s \<Longrightarrow> strip s = []"
proof -
  assume "list_all is_space s"
  then have d: "dropWhile is_space s = []"
    by (simp add: list_all_iff)
  show ?thesis unfolding strip_def d by simp
qed

lemma append_words_length:
  "append_words acc ws = Inr out \<Longrightarrow> length out = length acc + length ws"
proof (induction ws arbitrary: acc)
  case Nil
  then show ?case by simp
next
  case (Cons w ws)
  then show ?case by (fastforce split: sum.splits)
qed

lemma append_segments_length:
  "append_segments acc ss = Inr out \<Longrightarrow>
   length out = length acc + length (concat (map segment_entries ss))"
proof (induction ss arbitrary: acc)
  case Nil
  then show ?case by simp
next
  case (Cons sg ss)
  from Cons.prems obtain ws infos mid where
    g: "py_get sg (py ''words'') (PyList []) = Inr ws" and
    i: "py_iter ws = Inr infos" and
    a: "append_words acc infos = Inr mid" and
    r: "append_segments mid ss = Inr out"
    by (auto split: sum.splits)
  from g i have "segment_entries sg = infos"
    by (simp add: segment_entries_def)
  with append_words_length [OF a] Cons.IH [OF r] show ?case by simp
qed

lemma convert_length:
  "convert_to_json_format r = Inr out \<Longrightarrow>
   \<exists>ws. out = transcript ws \<and> length ws = length (word_entries r)"
proof -
  assume c: "convert_to_json_format r = Inr out"
  then obtain segs segments ws where
    g: "py_get r (py ''segments'') (PyList []) = Inr segs" and
    i: "py_iter segs = Inr segments" and
    a: "append_segments [] segments = Inr ws" and
    o: "out = PyDict [(py ''words'', PyList ws)]"
    by (auto simp: convert_to_json_format_def split: sum.splits)
  from g i have "word_entries r = concat (map segment_entries segments)"
    by (simp add: word_entries_def)
  with append_segments_length [OF a] o show ?thesis
    by (simp add: transcript_def)
qed

lemma sorted_wrt_concat_iff:
  "sorted_wrt P (concat xss) \<longleftrightarrow>
     list_all (sorted_wrt P) xss \<and>
     sorted_wrt (\<lambda>xs ys. \<forall>x \<in> set xs. \<forall>y \<in> set ys. P x y) xss"
  by (induction xss) (auto simp: sorted_wrt_append)

lemma record_times_json_word:
  "timed_word x = Some ab \<Longrightarrow> record_times (json_word x) = Some ab"
  by (auto simp: timed_word_def record_times_def json_word_def split: prod.splits pyval.splits)

lemma those_map_comp:
  "those (map f xs) = Some ys \<Longrightarrow> (\<And>x y. f x = Some y \<Longrightarrow> g (h x) = Some y) \<Longrightarrow>
   those (map g (map h xs)) = Some ys"
proof (induction xs arbitrary: ys)
  case Nil
  then show ?case by simp
next
  case (Cons x xs)
  from Cons.prems(1) obtain y ys' where "f x = Some y" "those (map f xs) = Some ys'" "ys = y # ys'"
    by (auto split: option.splits)
  with Cons.IH [of ys'] Cons.prems(2) show ?case by simp
qed

lemma convert_times:
  assumes "engine_result r = Some segs"
    and "those (map timed_word (concat segs)) = Some tms"
  shows "\<exists>ws. convert_to_json_format r = Inr (transcript ws) \<and>
              those (map record_times ws) = Some tms"
proof -
  have "those (map record_times (map json_word (concat segs))) = Some tms"
    by (rule those_map_comp [OF assms(2)]) (rule record_times_json_word)
  with convert_engine [OF assms(1)] show ?thesis by blast
qed

lemma those_concat:
  "those (map (\<lambda>seg. those (map f seg)) segs) = Some tss \<Longrightarrow>
   those (map f (concat segs)) = Some (concat tss)"
proof (induction segs arbitrary: tss)
  case Nil
  then show ?case by simp
next
  case (Cons sg segs)
  from Cons.prems obtain ts tss' where a: "those (map f sg) = Some ts"
    and b: "those (map (\<lambda>seg. those (map f seg)) segs) = Some tss'" and c: "tss = ts # tss'"
    by (auto split: option.splits)
  have app: "\<And>xs ys as bs. those (map f xs) = Some as \<Longrightarrow> those (map f ys) = Some bs \<Longrightarrow>
     those (map f (xs @ ys)) = Some (as @ bs)"
  proof -
    fix xs ys as bs
    show "those (map f xs) = Some as \<Longrightarrow> those (map f ys) = Some bs \<Longrightarrow>
     those (map f (xs @ ys)) = Some (as @ bs)"
      by (induction xs arbitrary: as) (auto split: option.splits)
  qed
  from app [OF a Cons.IH [OF b]] c show ?case by simp
qed

lemma word_record_shape:
  "word_shape v = Some x \<Longrightarrow>
   word_record v = (case entry_outcome x of Inl k \<Rightarrow> Inl (KeyError k) | Inr y \<Rightarrow> Inr (json_word y))"
  by (auto simp: word_shape_def word_record_def json_word_def
           split: pyval.splits option.splits)

lemma expected_words_append:
  "expected_words (xs @ ys) =
     (case expected_words xs of
        Inl k \<Rightarrow> Inl k
      | Inr as \<Rightarrow> (case expected_words ys of Inl k \<Rightarrow> Inl k | Inr bs \<Rightarrow> Inr (as @ bs)))"
  by (induction xs) (auto split: sum.splits)

lemma append_words_shape:
  "those (map word_shape ws) = Some es \<Longrightarrow>
   append_words acc ws =
     (case expected_words es of
        Inl k \<Rightarrow> Inl (KeyError k)
      | Inr ys \<Rightarrow> Inr (acc @ map json_word ys))"
proof (induction ws arbitrary: acc es)
  case Nil
  then show ?case by simp
next
  case (Cons w ws)
  from Cons.prems obtain x xs where x: "word_shape w = Some x"
    and xs: "those (map word_shape ws) = Some xs" and es: "es = x # xs"
    by (auto split: option.splits)
  show ?case
    using word_record_shape [OF x] Cons.IH [OF xs] es
    by (auto split: sum.splits)
qed

lemma append_segments_shape:
  "those (map segment_shape ss) = Some segs \<Longrightarrow>
   append_segments acc ss =
     (case expected_words (concat segs) of
        Inl k \<Rightarrow> Inl (KeyError k)
      | Inr ys \<Rightarrow> Inr (acc @ map json_word ys))"
proof (induction ss arbitrary: acc segs)
  case Nil
  then show ?case by simp
next
  case (Cons sg ss)
  from Cons.prems obtain x xs where x: "segment_shape sg = Some x"
    and xs: "those (map segment_shape ss) = Some xs" and segs: "segs = x # xs"
    by (auto split: option.splits)
  from x obtain kvs where sg: "sg = PyDict kvs"
    by (auto simp: segment_shape_def split: pyval.splits)
  show ?case
  proof (cases "map_of kvs (py ''words'')")
    case None
    with x sg have "x = []" by (simp add: segment_shape_def)
    with None sg segs Cons.IH [OF xs] show ?thesis by simp
  next
    case (Some v)
    with x sg obtain ws where v: "v = PyList ws" and th: "those (map word_shape ws) = Some x"
      by (auto simp: segment_shape_def split: pyval.splits)
    show ?thesis
      using Some v sg segs Cons.IH [OF xs] append_words_shape [OF th, of acc]
      by (auto simp: expected_words_append split: sum.splits)
  qed
qed

lemma convert_shape:
  "result_shape r = Some segs \<Longrightarrow>
   convert_to_json_format r =
     (case expected_words (concat segs) of
        Inl k \<Rightarrow> Inl (KeyError k)
      | Inr ys \<Rightarrow> Inr (transcript (map json_word ys)))"
proof -
  assume a: "result_shape r = Some segs"
  then obtain kvs where r: "r = PyDict kvs"
    by (auto simp: result_shape_def split: pyval.splits)
  show ?thesis
  proof (cases "map_of kvs (py ''segments'')")
    case None
    with a r have "segs = []" by (simp add: result_shape_def)
    with None r show ?thesis
      by (simp add: convert_to_json_format_def transcript_def)
  next
    case (Some v)
    with a r obtain ss where v: "v = PyList ss" and th: "those (map segment_shape ss) = Some segs"
      by (auto simp: result_shape_def split: pyval.splits)
    show ?thesis
      using Some v r append_segments_shape [OF th, of "[]"]
      by (auto simp: convert_to_json_format_def transcript_def split: sum.splits)
  qed
qed

lemma expected_words_Inl:
  "expected_words xs = Inl k \<Longrightarrow>
   list_ex incomplete xs \<and> k \<in> {py ''word'', py ''start'', py ''end''}"
proof (induction xs)
  case Nil
  then show ?case by simp
next
  case (Cons x xs)
  obtain w s e where x: "x = (w, s, e)" by (cases x)
  show ?case
    using Cons x
    by (cases w; cases s; cases e) (auto simp: incomplete_def split: sum.splits)
qed

lemma expected_words_Inr:
  "expected_words xs = Inr ys \<Longrightarrow> \<not> list_ex incomplete xs \<and> length ys = length xs"
proof (induction xs arbitrary: ys)
  case Nil
  then show ?case by simp
next
  case (Cons x xs)
  obtain w s e where x: "x = (w, s, e)" by (cases x)
  show ?case
    using Cons x
    by (cases w; cases s; cases e) (auto simp: incomplete_def split: sum.splits)
qed

lemma append_segments_append:
  "append_segments acc (xs @ ys) =
     (case append_segments acc xs of Inl e \<Rightarrow> Inl e | Inr mid \<Rightarrow> append_segments mid ys)"
  by (induction xs arbitrary: acc) (auto split: sum.splits)

lemma segment_without_words:
  "map_of kvs (py ''words'') = None \<Longrightarrow>
   append_segments acc (xs @ PyDict kvs # ys) = append_segments acc (xs @ ys)"
  by (simp add: append_segments_append split: sum.splits)

lemma strip_Hello: "strip (py '' Hello'') = py ''Hello''"
  by (simp add: strip_def py_def is_space_def)

lemma example_engine_result:
  "engine_result example_result = Some [[(py '' Hello'', PyNum 0, PyNum (4 / 10))], []]"
  by (simp add: example_result_def engine_result_def engine_segment_def engine_word_def)

lemma blank_engine_result:
  "engine_result blank_result = Some [[(py ''  '', PyNum 1, PyNum 2)]]"
  by (simp add: blank_result_def engine_result_def engine_segment_def engine_word_def)

lemma strip_blank: "strip (py ''  '') = []"
  by (simp add: strip_def py_def is_space_def)

lemma blank_all_space: "list_all is_space (py ''  '')"
  by (simp add: py_def is_space_def)

lemma word_entries_engine:
  "engine_result r = Some segs \<Longrightarrow> length (word_entries r) = length (concat segs)"
  using convert_engine [of r segs] convert_length [of r]
  by (auto simp: transcript_def)

lemma timed_engine_result:
  "engine_result timed_result =
     Some [[(py '' The'', PyNum 0, PyNum (32 / 100)),
            (py '' Picture'', PyNum (32 / 100), PyNum (81 / 100))],
           [(py '' of'', PyNum 1, PyNum (12 / 10))]]"
  by (simp add: timed_result_def engine_result_def engine_segment_def engine_word_def)

lemma gappy_result_shape:
  "result_shape gappy_result =
     Some [[], [(Some (py '' a''), Some (PyNum 0), Some (PyNum 1)),
                (Some (py '' b''), Some (PyNum 1), None)]]"
  by (simp add: gappy_result_def result_shape_def segment_shape_def word_shape_def)

section \<open>Properties of the JSON writer\<close>

lemma emit_seq_all:
  "list_all P (fst a) \<Longrightarrow> list_all P (fst b) \<Longrightarrow> list_all P (fst (emit_seq a b))"
  by (cases a; cases b; cases "snd a") auto

lemma hex_digit_hex: "d < 16 \<Longrightarrow> is_hex (hex_digit d)"
  by (auto simp: hex_digit_def is_hex_def)

lemma hex4_hex: "list_all is_hex (hex4 n)"
  by (simp add: hex4_def hex_digit_hex)

lemma is_hex_ascii: "is_hex c \<Longrightarrow> is_ascii c"
  by (auto simp: is_hex_def is_ascii_def)

lemma hex4_ascii: "list_all is_ascii (hex4 n)"
  using hex4_hex [of n] by (auto simp: list_all_iff is_hex_ascii)

lemma escape_char_ascii: "list_all is_ascii (escape_char c)"
  using hex4_ascii by (auto simp: escape_char_def Let_def is_ascii_def)

lemma encode_basestring_ascii_ascii: "list_all is_ascii (encode_basestring_ascii s)"
  using escape_char_ascii by (auto simp: encode_basestring_ascii_def list_all_iff is_ascii_def)

lemma newline_indent_ascii: "list_all is_ascii (newline_indent level)"
  by (simp add: newline_indent_def list_all_iff is_ascii_def)

lemma literals_ascii:
  "list_all is_ascii (py ''null'')" "list_all is_ascii (py ''[]'')" "list_all is_ascii (py '']'')"
  "list_all is_ascii (py ''{}'')" "list_all is_ascii (py ''{'')" "list_all is_ascii (py ''}'')"
  "list_all is_ascii (py ''['')" "list_all is_ascii (py '','')" "list_all is_ascii (py '': '')"
  by (simp_all add: py_def is_ascii_def)

lemma iterencode_ascii:
  "(\<forall>t. list_all is_ascii (fr t)) \<Longrightarrow> list_all is_ascii (fst (iterencode fr level v))"
  "(\<forall>t. list_all is_ascii (fr t)) \<Longrightarrow> list_all is_ascii (fst (iterencode_list fr level first vs))"
  "(\<forall>t. list_all is_ascii (fr t)) \<Longrightarrow> list_all is_ascii (fst (iterencode_dict fr level first kvs))"
proof (induction fr level v and fr level first vs and fr level first kvs
       rule: iterencode_iterencode_list_iterencode_dict.induct)
qed (auto simp: emit_text_def emit_raise_def literals_ascii newline_indent_ascii
                encode_basestring_ascii_ascii intro!: emit_seq_all)

lemma written_ascii:
  assumes "\<forall>t. list_all is_ascii (float_repr E t)"
  shows "list_all is_ascii (fst (written E path v))"
proof -
  obtain out r where e: "iterencode (float_repr E) 0 v = (out, r)"
    by (cases "iterencode (float_repr E) 0 v")
  have a: "list_all is_ascii out"
    using iterencode_ascii(1) [OF assms, of 0 v] e by simp
  then have "list_all is_ascii (take n out)" for n
    by (auto simp: list_all_iff dest: in_set_takeD)
  with a e show ?thesis
    by (simp add: written_def split: option.splits)
qed

lemma write_json_ascii:
  assumes "\<forall>t. list_all is_ascii (float_repr E t)" and "writable E path"
  shows "\<exists>out. files (snd (write_json E path v w)) path = Some out \<and> list_all is_ascii out"
proof -
  obtain out r where e: "written E path v = (out, r)"
    by (cases "written E path v")
  have "list_all is_ascii out"
    using written_ascii [OF assms(1), of path v] e by simp
  then show ?thesis
    using assms(2) e by (cases r) (simp_all add: write_json_def Let_def)
qed

lemma escape_char_non_ascii:
  "128 \<le> c \<Longrightarrow>
   escape_char c =
     (if c < 65536 then [92, 117] @ hex4 c
      else [92, 117] @ hex4 (55296 + (c - 65536) div 1024 mod 1024)
           @ [92, 117] @ hex4 (56320 + (c - 65536) mod 1024))"
  by (simp add: escape_char_def Let_def)

lemma encode_cafe:
  "encode_basestring_ascii [99, 97, 102, 233] = [34, 99, 97, 102, 92, 117, 48, 48, 101, 57, 34]"
  by (simp add: encode_basestring_ascii_def escape_char_def hex4_def hex_digit_def)

lemma str_nat_ascii: "list_all is_ascii (str_nat n)"
proof (induction n rule: str_nat.induct)
  case (1 n)
  show ?case
  proof (cases "n < 10")
    case True
    then show ?thesis by (subst str_nat.simps) (simp add: is_ascii_def)
  next
    case False
    have "n mod 10 < 10" by simp
    then have "is_ascii (48 + n mod 10)" unfolding is_ascii_def by linarith
    with False 1 show ?thesis by (subst str_nat.simps) simp
  qed
qed

lemma decimal_env_ascii: "\<forall>t. list_all is_ascii (float_repr decimal_env t)"
  by (simp add: decimal_env_def str_nat_ascii) (simp add: py_def is_ascii_def)

lemma decimal_env_writable: "writable decimal_env p"
  by (simp add: decimal_env_def)

section \<open>Properties of the stages of a run\<close>

lemma files_print [simp]: "files (print l w) = files w"
  and calls_print [simp]: "calls (print l w) = calls w"
  and console_print [simp]: "console (print l w) = console w @ [l]"
  by (simp_all add: print_def)

lemma files_log_call [simp]: "files (log_call c w) = files w"
  and calls_log_call [simp]: "calls (log_call c w) = calls w @ [c]"
  and console_log_call [simp]: "console (log_call c w) = console w"
  by (simp_all add: log_call_def)

lemma last_cmd [simp]:
  "last (copy_cmd a out) = out" "last (reencode_cmd a out) = out"
  by (simp_all add: copy_cmd_def reencode_cmd_def)

lemma input_content_cmd [simp]:
  "input_content (copy_cmd a out) w = files w a"
  "input_content (reencode_cmd a out) w = files w a"
  by (simp_all add: input_content_def copy_cmd_def reencode_cmd_def)

lemma paths_distinct [simp]:
  "audio_file \<noteq> temp_audio" "temp_audio \<noteq> audio_file"
  "audio_file \<noteq> output_json" "output_json \<noteq> audio_file"
  "temp_audio \<noteq> output_json" "output_json \<noteq> temp_audio"
  by (simp_all add: audio_file_def temp_audio_def output_json_def)

lemma cmds_distinct [simp]: "copy_cmd a out \<noteq> reencode_cmd a out"
  by (simp add: copy_cmd_def reencode_cmd_def)

lemma subprocess_run_calls [simp]:
  "calls (snd (subprocess_run E cmd w)) = calls w @ [Spawn cmd]"
  by (simp add: subprocess_run_def Let_def split: proc.splits effect.splits)

lemma subprocess_run_console [simp]:
  "console (snd (subprocess_run E cmd w)) = console w"
  by (simp add: subprocess_run_def Let_def split: proc.splits effect.splits)

lemma subprocess_run_frame:
  "p \<noteq> last cmd \<Longrightarrow> files (snd (subprocess_run E cmd w)) p = files w p"
  by (simp add: subprocess_run_def Let_def split: proc.splits effect.splits)

lemma subprocess_run_fst:
  "fst (subprocess_run E cmd w) =
     (case subprocess E cmd (input_content cmd w) of
        SpawnError e \<Rightarrow> Inl e
      | Completed rc err fx \<Rightarrow> Inr (rc, err))"
  by (simp add: subprocess_run_def Let_def split: proc.splits effect.splits)

lemma subprocess_run_out:
  "files (snd (subprocess_run E cmd w)) (last cmd) =
     (case subprocess E cmd (input_content cmd w) of
        Completed rc err (Wrote d) \<Rightarrow> Some d
      | _ \<Rightarrow> files w (last cmd))"
  by (simp add: subprocess_run_def Let_def split: proc.splits effect.splits)

lemma extract_calls:
  "calls (snd (extract_first_60_seconds E a out w)) =
     calls w @ (if copy_failed E a out w
                then [Spawn (copy_cmd a out), Spawn (reencode_cmd a out)]
                else [Spawn (copy_cmd a out)])"
proof (cases "subprocess_run E (copy_cmd a out)
               (print (py ''Extracting first 60 seconds from: '' @ a) w)")
  case (Pair r w2)
  have c2: "calls w2 = calls w @ [Spawn (copy_cmd a out)]"
    using subprocess_run_calls [of E "copy_cmd a out"
            "print (py ''Extracting first 60 seconds from: '' @ a) w"] Pair by simp
  have r: "r = (case subprocess E (copy_cmd a out) (files w a) of
        SpawnError e \<Rightarrow> Inl e
      | Completed rc err fx \<Rightarrow> Inr (rc, err))"
    using subprocess_run_fst [of E "copy_cmd a out"
            "print (py ''Extracting first 60 seconds from: '' @ a) w"] Pair by simp
  show ?thesis
  proof (cases "subprocess E (copy_cmd a out) (files w a)")
    case (SpawnError e)
    with Pair r c2 show ?thesis
      by (simp add: extract_first_60_seconds_def Let_def copy_failed_def)
  next
    case (Completed rc err fx)
    show ?thesis
    proof (cases "rc = 0")
      case True
      with Completed Pair r c2 show ?thesis
        by (simp add: extract_first_60_seconds_def Let_def copy_failed_def)
    next
      case False
      obtain r' w4 where p2: "subprocess_run E (reencode_cmd a out)
               (print (py ''Codec copy failed, re-encoding...'') w2) = (r', w4)"
        by (cases "subprocess_run E (reencode_cmd a out)
               (print (py ''Codec copy failed, re-encoding...'') w2)")
      have c4: "calls w4 = calls w2 @ [Spawn (reencode_cmd a out)]"
        using subprocess_run_calls [of E "reencode_cmd a out"
            "print (py ''Codec copy failed, re-encoding...'') w2"] p2 by simp
      from False Completed Pair r c2 p2 c4 show ?thesis
        by (cases r') (auto simp: extract_first_60_seconds_def Let_def copy_failed_def)
    qed
  qed
qed

lemma extract_frame:
  "p \<noteq> out \<Longrightarrow> files (snd (extract_first_60_seconds E a out w)) p = files w p"
proof -
  assume p: "p \<noteq> out"
  have f: "\<And>cmd x. last cmd = out \<Longrightarrow> files (snd (subprocess_run E cmd x)) p = files x p"
    using p by (simp add: subprocess_run_frame)
  show ?thesis
    unfolding extract_first_60_seconds_def Let_def
    apply (cases "subprocess_run E (copy_cmd a out)
               (print (py ''Extracting first 60 seconds from: '' @ a) w)")
    subgoal for r w2
      apply (cases "subprocess_run E (reencode_cmd a out)
               (print (py ''Codec copy failed, re-encoding...'') w2)")
      subgoal for r' w4
        using f [of "copy_cmd a out" "print (py ''Extracting first 60 seconds from: '' @ a) w"]
              f [of "reencode_cmd a out" "print (py ''Codec copy failed, re-encoding...'') w2"]
        by (auto split: sum.splits)
      done
    done
qed

lemma subprocess_run_eq:
  "subprocess_run E cmd w =
     (case subprocess E cmd (input_content cmd w) of
        SpawnError e \<Rightarrow> (Inl e, log_call (Spawn cmd) w)
      | Completed rc err fx \<Rightarrow>
          (Inr (rc, err),
           (log_call (Spawn cmd) w)
             \<lparr>files := (files w)(last cmd := apply_effect fx (files w (last cmd)))\<rparr>))"
  by (simp add: subprocess_run_def Let_def split: proc.splits effect.splits)

lemma extract_fst:
  "a \<noteq> out \<Longrightarrow> fst (extract_first_60_seconds E a out w) = extract_outcome E a out (files w a)"
  by (simp add: extract_first_60_seconds_def extract_outcome_def subprocess_run_eq Let_def
           split: proc.splits)

lemma extract_clip:
  "a \<noteq> out \<Longrightarrow>
   files (snd (extract_first_60_seconds E a out w)) out = clip_after E a out (files w a) (files w out)"
  by (simp add: extract_first_60_seconds_def clip_after_def subprocess_run_eq Let_def
           split: proc.splits)

lemma extract_console_prefix:
  "\<exists>ls. console (snd (extract_first_60_seconds E a out w)) = console w @ ls"
  by (simp add: extract_first_60_seconds_def subprocess_run_eq Let_def split: proc.splits)

lemma transcribe_audio_fst:
  "fst (transcribe_audio E p w) =
     (case load_model E (py ''base'') of Some e \<Rightarrow> Inl e | None \<Rightarrow> transcribe E (files w p))"
  by (simp add: transcribe_audio_def Let_def split: option.splits)

lemma transcribe_audio_files [simp]:
  "files (snd (transcribe_audio E p w)) = files w"
  by (simp add: transcribe_audio_def Let_def split: option.splits)

lemma transcribe_audio_calls:
  "calls (snd (transcribe_audio E p w)) =
     calls w @ LoadModel (py ''base'')
             # (case load_model E (py ''base'') of Some e \<Rightarrow> [] | None \<Rightarrow> [Transcribe p])"
  by (simp add: transcribe_audio_def Let_def split: option.splits)

lemma write_json_fst:
  "fst (write_json E p j w) =
     (if \<not> writable E p then Inl PermissionError
      else case snd (written E p j) of None \<Rightarrow> Inr () | Some e \<Rightarrow> Inl e)"
  by (simp add: write_json_def Let_def split: prod.splits option.splits)

lemma write_json_files:
  "files (snd (write_json E p j w)) =
     (if writable E p then (files w)(p \<mapsto> fst (written E p j)) else files w)"
  by (simp add: write_json_def Let_def split: prod.splits option.splits)

lemma write_json_calls [simp]:
  "calls (snd (write_json E p j w)) = calls w @ [OpenWrite p]"
  by (simp add: write_json_def Let_def split: prod.splits option.splits)

lemma preview_fst: "fst (preview E l w) = fst (preview E l blank_world)"
proof (induction l arbitrary: w)
  case Nil
  then show ?case by simp
next
  case (Cons x xs)
  show ?case
  proof (cases "preview_line E x")
    case (Inl e)
    then show ?thesis by simp
  next
    case (Inr line)
    then show ?thesis
      using Cons.IH [of "print line w"] Cons.IH [of "print line blank_world"] by simp
  qed
qed

lemma preview_files [simp]: "files (snd (preview E l w)) = files w"
  by (induction l arbitrary: w) (auto split: sum.splits)

lemma preview_calls [simp]: "calls (snd (preview E l w)) = calls w"
  by (induction l arbitrary: w) (auto split: sum.splits)

lemma report_fst: "fst (report E j w) = fst (report E j blank_world)"
  using preview_fst [of E _ "print _ (print _ (print _ w))"]
        preview_fst [of E _ "print _ (print _ (print _ blank_world))"]
  by (simp add: report_def Let_def split: sum.splits)

lemma report_files [simp]: "files (snd (report E j w)) = files w"
  by (simp add: report_def Let_def split: sum.splits)

lemma report_calls [simp]: "calls (snd (report E j w)) = calls w"
  by (simp add: report_def Let_def split: sum.splits)

lemma main_finally_files: "files (main_finally w) = (files w)(temp_audio := None)"
  by (auto simp: main_finally_def exists_def remove_def)

lemma main_finally_calls:
  "calls (main_finally w) = calls w @ (if exists temp_audio w then [Remove temp_audio] else [])"
  by (simp add: main_finally_def remove_def)

lemma extract_files:
  "a \<noteq> out \<Longrightarrow>
   files (snd (extract_first_60_seconds E a out w)) =
     (files w)(out := clip_after E a out (files w a) (files w out))"
  by (rule ext) (simp add: extract_clip extract_frame)

lemma formatted_data_pure:
  "formatted_data E w =
     (case extract_outcome E audio_file temp_audio (files w audio_file) of
        Inl e \<Rightarrow> Inl e
      | Inr _ \<Rightarrow>
          (case load_model E (py ''base'') of
             Some e \<Rightarrow> Inl e
           | None \<Rightarrow>
               (case transcribe E (clip_after E audio_file temp_audio
                                     (files w audio_file) (files w temp_audio)) of
                  Inl e \<Rightarrow> Inl e
                | Inr result \<Rightarrow> convert_to_json_format result)))"
proof -
  obtain r1 w1 where e: "extract_first_60_seconds E audio_file temp_audio w = (r1, w1)"
    by (cases "extract_first_60_seconds E audio_file temp_audio w")
  have r1: "r1 = extract_outcome E audio_file temp_audio (files w audio_file)"
    using extract_fst [of audio_file temp_audio E w] e by simp
  have f1: "files w1 temp_audio =
      clip_after E audio_file temp_audio (files w audio_file) (files w temp_audio)"
    using extract_clip [of audio_file temp_audio E w] e by simp
  obtain r2 w2 where t: "transcribe_audio E temp_audio w1 = (r2, w2)"
    by (cases "transcribe_audio E temp_audio w1")
  have r2: "r2 = (case load_model E (py ''base'') of
                    Some e \<Rightarrow> Inl e | None \<Rightarrow> transcribe E (files w1 temp_audio))"
    using transcribe_audio_fst [of E temp_audio w1] t by simp
  show ?thesis
    using e t r1 [symmetric] r2 f1
    by (simp add: formatted_data_def split: sum.splits option.splits)
qed

lemma main_try_fst:
  "fst (main_try E w) =
     (case formatted_data E w of
        Inl e \<Rightarrow> Inl e
      | Inr j \<Rightarrow>
          if \<not> writable E output_json then Inl PermissionError
          else (case snd (written E output_json j) of
                  Some e \<Rightarrow> Inl e
                | None \<Rightarrow> fst (report E j blank_world)))"
proof -
  obtain r1 w1 where e: "extract_first_60_seconds E audio_file temp_audio w = (r1, w1)"
    by (cases "extract_first_60_seconds E audio_file temp_audio w")
  obtain r2 w2 where t: "transcribe_audio E temp_audio w1 = (r2, w2)"
    by (cases "transcribe_audio E temp_audio w1")
  show ?thesis
  proof (cases "formatted_data E w")
    case (Inl x)
    with e t show ?thesis
      by (auto simp: formatted_data_def main_try_def split: sum.splits)
  next
    case (Inr j)
    with e t obtain a b where r1: "r1 = Inr a" and r2: "r2 = Inr b"
      and c: "convert_to_json_format b = Inr j"
      by (auto simp: formatted_data_def split: sum.splits)
    obtain r4 w4 where wj: "write_json E output_json j
        (print (10 # py ''Saving transcription to: '' @ output_json) w2) = (r4, w4)"
      by (cases "write_json E output_json j
        (print (10 # py ''Saving transcription to: '' @ output_json) w2)")
    have r4: "r4 = (if \<not> writable E output_json then Inl PermissionError
      else case snd (written E output_json j) of None \<Rightarrow> Inr () | Some e \<Rightarrow> Inl e)"
      using write_json_fst [of E output_json j
              "print (10 # py ''Saving transcription to: '' @ output_json) w2"] wj by simp
    show ?thesis
      using Inr e t r1 r2 c wj r4 report_fst [of E j w4]
      by (auto simp: main_try_def Let_def split: sum.splits option.splits)
  qed
qed

lemma main_try_files:
  "files (snd (main_try E w)) =
     (files w)(temp_audio := clip_after E audio_file temp_audio (files w audio_file) (files w temp_audio),
               output_json := output_after E w)"
proof -
  obtain r1 w1 where e: "extract_first_60_seconds E audio_file temp_audio w = (r1, w1)"
    by (cases "extract_first_60_seconds E audio_file temp_audio w")
  have f1: "files w1 = (files w)(temp_audio :=
      clip_after E audio_file temp_audio (files w audio_file) (files w temp_audio))"
    using extract_files [of audio_file temp_audio E w] e by simp
  obtain r2 w2 where t: "transcribe_audio E temp_audio w1 = (r2, w2)"
    by (cases "transcribe_audio E temp_audio w1")
  have f2: "files w2 = files w1"
    using transcribe_audio_files [of E temp_audio w1] t by simp
  show ?thesis
  proof (cases "formatted_data E w")
    case (Inl x)
    with e t f1 f2 show ?thesis
      by (auto simp: formatted_data_def main_try_def output_after_def split: sum.splits)
  next
    case (Inr j)
    with e t obtain a b where r1: "r1 = Inr a" and r2: "r2 = Inr b"
      and c: "convert_to_json_format b = Inr j"
      by (auto simp: formatted_data_def split: sum.splits)
    obtain r4 w4 where wj: "write_json E output_json j
        (print (10 # py ''Saving transcription to: '' @ output_json) w2) = (r4, w4)"
      by (cases "write_json E output_json j
        (print (10 # py ''Saving transcription to: '' @ output_json) w2)")
    have f4: "files w4 = (if writable E output_json
        then (files w2)(output_json \<mapsto> fst (written E output_json j)) else files w2)"
      using write_json_files [of E output_json j
              "print (10 # py ''Saving transcription to: '' @ output_json) w2"] wj by simp
    have o: "output_after E w = (if writable E output_json
        then Some (fst (written E output_json j)) else files w output_json)"
      using Inr by (simp add: output_after_def)
    have "files (snd (main_try E w)) = files w4"
      using e t r1 r2 c wj by (cases r4) (simp_all add: main_try_def Let_def)
    with f4 f2 f1 o show ?thesis
      by (auto simp: fun_upd_twist)
  qed
qed

lemma main_try_calls:
  "calls (snd (main_try E w)) =
     calls w
     @ (if copy_failed E audio_file temp_audio w
        then [Spawn (copy_cmd audio_file temp_audio), Spawn (reencode_cmd audio_file temp_audio)]
        else [Spawn (copy_cmd audio_file temp_audio)])
     @ (case extract_outcome E audio_file temp_audio (files w audio_file) of
          Inl e \<Rightarrow> []
        | Inr _ \<Rightarrow>
            LoadModel (py ''base'')
            # (case load_model E (py ''base'') of
                 Some e \<Rightarrow> []
               | None \<Rightarrow>
                   Transcribe temp_audio
                   # (case formatted_data E w of
                        Inl e \<Rightarrow> []
                      | Inr j \<Rightarrow> [OpenWrite output_json])))"
proof -
  obtain r1 w1 where e: "extract_first_60_seconds E audio_file temp_audio w = (r1, w1)"
    by (cases "extract_first_60_seconds E audio_file temp_audio w")
  have r1: "extract_outcome E audio_file temp_audio (files w audio_file) = r1"
    using extract_fst [of audio_file temp_audio E w] e by simp
  have c1: "calls w1 = calls w
     @ (if copy_failed E audio_file temp_audio w
        then [Spawn (copy_cmd audio_file temp_audio), Spawn (reencode_cmd audio_file temp_audio)]
        else [Spawn (copy_cmd audio_file temp_audio)])"
    using extract_calls [of E audio_file temp_audio w] e by simp
  obtain r2 w2 where t: "transcribe_audio E temp_audio w1 = (r2, w2)"
    by (cases "transcribe_audio E temp_audio w1")
  have r2: "r2 = (case load_model E (py ''base'') of
                    Some e \<Rightarrow> Inl e | None \<Rightarrow> transcribe E (files w1 temp_audio))"
    using transcribe_audio_fst [of E temp_audio w1] t by simp
  have c2: "calls w2 = calls w1 @ LoadModel (py ''base'')
             # (case load_model E (py ''base'') of Some e \<Rightarrow> [] | None \<Rightarrow> [Transcribe temp_audio])"
    using transcribe_audio_calls [of E temp_audio w1] t by simp
  show ?thesis
  proof (cases r1)
    case (Inl x)
    with e r1 c1 show ?thesis by (simp add: main_try_def)
  next
    case a: (Inr a)
    show ?thesis
    proof (cases r2)
      case (Inl x)
      have fd: "formatted_data E w = Inl x"
        using e a t Inl by (simp add: formatted_data_def)
      have mt: "snd (main_try E w) = w2"
        using e a t Inl by (simp add: main_try_def)
      show ?thesis
        using r1 a by (simp add: mt fd c2 c1 split: option.splits)
    next
      case b: (Inr b)
      then have lm: "load_model E (py ''base'') = None"
        using r2 by (auto split: option.splits)
      show ?thesis
      proof (cases "convert_to_json_format b")
        case (Inl x)
        with a b e t r1 c1 c2 lm show ?thesis
          by (simp add: main_try_def formatted_data_def)
      next
        case (Inr j)
        obtain r4 w4 where wj: "write_json E output_json j
            (print (10 # py ''Saving transcription to: '' @ output_json) w2) = (r4, w4)"
          by (cases "write_json E output_json j
            (print (10 # py ''Saving transcription to: '' @ output_json) w2)")
        have c4: "calls w4 = calls w2 @ [OpenWrite output_json]"
          using write_json_calls [of E output_json j
                  "print (10 # py ''Saving transcription to: '' @ output_json) w2"] wj by simp
        have "calls (snd (main_try E w)) = calls w4"
          using a b e t Inr wj by (cases r4) (simp_all add: main_try_def Let_def)
        with Inr a b e t r1 c1 c2 c4 lm show ?thesis
          by (simp add: formatted_data_def)
      qed
    qed
  qed
qed

lemma new_calls_append: "calls w' = calls w @ cs \<Longrightarrow> new_calls w w' = cs"
  by (simp add: new_calls_def)

lemma main_fst:
  "exists audio_file w \<Longrightarrow>
   fst (main E w) = (case fst (main_try E w) of Inl e \<Rightarrow> Uncaught e | Inr u \<Rightarrow> Returned)"
  by (cases "main_try E w") (auto simp: main_def split: sum.splits)

lemma main_snd:
  "exists audio_file w \<Longrightarrow> snd (main E w) = main_finally (snd (main_try E w))"
  by (cases "main_try E w") (auto simp: main_def split: sum.splits)

lemma main_files:
  "exists audio_file w \<Longrightarrow>
   files (snd (main E w)) = (files w)(temp_audio := None, output_json := output_after E w)"
  by (simp add: main_snd main_finally_files main_try_files fun_upd_twist)

lemma extract_both_fail:
  assumes "a \<noteq> out"
    and "subprocess E (copy_cmd a out) (files w a) = Completed rc err fx" and "rc \<noteq> 0"
    and "subprocess E (reencode_cmd a out) (files w a) = Completed rc' err' fx'" and "rc' \<noteq> 0"
  shows "fst (extract_first_60_seconds E a out w) = Inl (Exception (py ''ffmpeg failed: '' @ err'))"
  using assms by (simp add: extract_fst extract_outcome_def)

lemma formatted_data_extract_fails:
  "extract_outcome E audio_file temp_audio (files w audio_file) = Inl e \<Longrightarrow>
   formatted_data E w = Inl e"
  by (simp add: formatted_data_pure)

lemma main_both_fail:
  assumes "exists audio_file w"
    and "subprocess E (copy_cmd audio_file temp_audio) (files w audio_file) = Completed rc err fx"
    and "rc \<noteq> 0"
    and "subprocess E (reencode_cmd audio_file temp_audio) (files w audio_file)
           = Completed rc' err' fx'"
    and "rc' \<noteq> 0"
  shows "fst (main E w) = Uncaught (Exception (py ''ffmpeg failed: '' @ err'))"
    and "new_calls w (snd (main E w)) =
           [Spawn (copy_cmd audio_file temp_audio), Spawn (reencode_cmd audio_file temp_audio)]
           @ (if exists temp_audio (snd (main_try E w)) then [Remove temp_audio] else [])"
    and "formatted_data E w = Inl (Exception (py ''ffmpeg failed: '' @ err'))"
proof -
  have eo: "extract_outcome E audio_file temp_audio (files w audio_file)
              = Inl (Exception (py ''ffmpeg failed: '' @ err'))"
    using assms(2-5) by (simp add: extract_outcome_def)
  show fd: "formatted_data E w = Inl (Exception (py ''ffmpeg failed: '' @ err'))"
    using eo by (rule formatted_data_extract_fails)
  show "fst (main E w) = Uncaught (Exception (py ''ffmpeg failed: '' @ err'))"
    using assms(1) fd by (simp add: main_fst main_try_fst)
  have cf: "copy_failed E audio_file temp_audio w"
    using assms(2,3) by (simp add: copy_failed_def)
  have "calls (snd (main E w)) = calls w @
           [Spawn (copy_cmd audio_file temp_audio), Spawn (reencode_cmd audio_file temp_audio)]
           @ (if exists temp_audio (snd (main_try E w)) then [Remove temp_audio] else [])"
    using assms(1) eo cf by (simp add: main_snd main_finally_calls main_try_calls)
  then show "new_calls w (snd (main E w)) =
           [Spawn (copy_cmd audio_file temp_audio), Spawn (reencode_cmd audio_file temp_audio)]
           @ (if exists temp_audio (snd (main_try E w)) then [Remove temp_audio] else [])"
    by (rule new_calls_append)
qed

lemma input_world_exists: "exists audio_file input_world"
  by (simp add: exists_def input_world_def)

lemma input_world_audio: "files input_world audio_file = Some [1, 2, 3]"
  by (simp add: input_world_def)

lemma failing_env_subprocess:
  "subprocess failing_env cmd inp = Completed 1 (py ''Invalid data found'') (Wrote [0])"
  by (simp add: failing_env_def)

lemma blank_world_no_input: "\<not> exists audio_file blank_world"
  by (simp add: exists_def blank_world_def)

lemma clip_after_failing:
  "clip_after failing_env audio_file temp_audio inp old = Some [0]"
  by (simp add: clip_after_def failing_env_def)

lemma failing_clip_exists: "exists temp_audio (snd (main_try failing_env input_world))"
  by (simp add: exists_def main_try_files clip_after_failing)

lemma str_nat_digit: "n < 10 \<Longrightarrow> str_nat n = [48 + n]"
  by (subst str_nat.simps) simp

lemma newline_indent_levels:
  "newline_indent 0 = [10]"
  "newline_indent (Suc 0) = [10, 32, 32]"
  "newline_indent (Suc (Suc 0)) = [10, 32, 32, 32, 32]"
  "newline_indent (Suc (Suc (Suc 0))) = [10, 32, 32, 32, 32, 32, 32]"
  by (simp_all add: newline_indent_def numeral_eq_Suc)

lemma cafe_text:
  "iterencode (float_repr decimal_env) 0 cafe_transcript =
    ([123, 10, 32, 32, 34, 119, 111, 114, 100, 115, 34, 58, 32, 91, 10, 32, 32,
   32, 32, 123, 10, 32, 32, 32, 32, 32, 32, 34, 119, 111, 114, 100, 34, 58,
   32, 34, 99, 97, 102, 92, 117, 48, 48, 101, 57, 34, 44, 10, 32, 32, 32,
   32, 32, 32, 34, 115, 116, 97, 114, 116, 34, 58, 32, 48, 46, 48, 44, 10,
   32, 32, 32, 32, 32, 32, 34, 101, 110, 100, 34, 58, 32, 49, 46, 48, 10,
   32, 32, 32, 32, 125, 10, 32, 32, 93, 10, 125], None)"
  by (simp add: cafe_transcript_def decimal_env_def emit_text_def encode_basestring_ascii_def
        escape_char_def hex4_def hex_digit_def newline_indent_levels str_nat_digit py_def)

lemma old_output_world_exists: "exists audio_file old_output_world"
  by (simp add: exists_def old_output_world_def)

lemma old_output_world_output: "files old_output_world output_json = Some (py ''old'')"
  by (simp add: old_output_world_def)

lemma strip_cafe: "strip [32, 99, 97, 102, 233] = [99, 97, 102, 233]"
  by (simp add: strip_def is_space_def)

lemma decimal_formatted_data:
  "formatted_data (decimal_env\<lparr>write_limit := l\<rparr>) w = Inr cafe_transcript"
  by (simp add: formatted_data_pure extract_outcome_def decimal_env_def cafe_transcript_def
        convert_to_json_format_def word_record_def strip_cafe)

lemma full_disk_written:
  "written full_disk_env output_json cafe_transcript = ([123, 10, 32, 32, 34], Some OSError)"
proof -
  have "float_repr full_disk_env = float_repr decimal_env"
    by (simp add: full_disk_env_def)
  then show ?thesis
    by (simp add: written_def cafe_text) (simp add: full_disk_env_def)
qed

lemma written_prefix:
  "\<exists>rest. fst (iterencode (float_repr E) 0 j) = fst (written E p j) @ rest"
proof (cases "iterencode (float_repr E) 0 j")
  case (Pair out r)
  have "\<exists>rest. out = take n out @ rest" for n
    by (rule exI [of _ "drop n out"]) simp
  with Pair show ?thesis
    by (auto simp: written_def split: option.splits)
qed

lemma written_None:
  "snd (written E p j) = None \<Longrightarrow> written E p j = iterencode (float_repr E) 0 j"
  by (cases "iterencode (float_repr E) 0 j")
     (auto simp: written_def split: option.splits if_splits)

lemma main_calls:
  "exists audio_file w \<Longrightarrow>
   new_calls w (snd (main E w)) =
     (if copy_failed E audio_file temp_audio w
        then [Spawn (copy_cmd audio_file temp_audio), Spawn (reencode_cmd audio_file temp_audio)]
        else [Spawn (copy_cmd audio_file temp_audio)])
     @ (case extract_outcome E audio_file temp_audio (files w audio_file) of
          Inl e \<Rightarrow> []
        | Inr _ \<Rightarrow>
            LoadModel (py ''base'')
            # (case load_model E (py ''base'') of
                 Some e \<Rightarrow> []
               | None \<Rightarrow>
                   Transcribe temp_audio
                   # (case formatted_data E w of
                        Inl e \<Rightarrow> []
                      | Inr j \<Rightarrow> [OpenWrite output_json])))
     @ (if exists temp_audio (snd (main_try E w)) then [Remove temp_audio] else [])"
  by (rule new_calls_append) (simp add: main_snd main_finally_calls main_try_calls)

lemma no_open_without_data:
  "exists audio_file w \<Longrightarrow> formatted_data E w = Inl e \<Longrightarrow>
   OpenWrite output_json \<notin> set (new_calls w (snd (main E w)))"
  by (simp add: main_calls split: sum.splits option.splits)

lemma clip_after_success:
  "writes_on_success E \<Longrightarrow> extract_outcome E a out inp = Inr x \<Longrightarrow>
   clip_after E a out inp old = clip_after E a out inp old'"
proof -
  assume w: "writes_on_success E" and x: "extract_outcome E a out inp = Inr x"
  have z: "\<And>cmd err fx. subprocess E cmd inp = Completed 0 err fx \<Longrightarrow> \<exists>d. fx = Wrote d"
  proof -
    fix cmd err fx
    assume "subprocess E cmd inp = Completed 0 err fx"
    with w show "\<exists>d. fx = Wrote d"
      by (cases fx) (auto simp: writes_on_success_def)
  qed
  show ?thesis
  proof (cases "subprocess E (copy_cmd a out) inp")
    case (SpawnError e)
    with x show ?thesis by (simp add: extract_outcome_def)
  next
    case c1: (Completed rc err fx)
    show ?thesis
    proof (cases "rc = 0")
      case True
      with c1 z [of "copy_cmd a out" err fx] show ?thesis
        by (auto simp: clip_after_def)
    next
      case False
      show ?thesis
      proof (cases "subprocess E (reencode_cmd a out) inp")
        case (SpawnError e)
        with x c1 False show ?thesis by (simp add: extract_outcome_def)
      next
        case c2: (Completed rc' err' fx')
        with x c1 False have "rc' = 0"
          by (auto simp: extract_outcome_def split: if_splits)
        with c1 c2 False z [of "reencode_cmd a out" err' fx'] show ?thesis
          by (auto simp: clip_after_def)
      qed
    qed
  qed
qed

lemma formatted_data_cong:
  assumes "files w audio_file = files w' audio_file"
    and "files w temp_audio = files w' temp_audio \<or> writes_on_success E"
  shows "formatted_data E w = formatted_data E w'"
proof (cases "extract_outcome E audio_file temp_audio (files w audio_file)")
  case (Inl e)
  with assms(1) show ?thesis by (simp add: formatted_data_pure)
next
  case (Inr x)
  have "clip_after E audio_file temp_audio (files w audio_file) (files w temp_audio)
      = clip_after E audio_file temp_audio (files w audio_file) (files w' temp_audio)"
    using assms(2)
  proof
    assume "files w temp_audio = files w' temp_audio"
    then show ?thesis by simp
  next
    assume "writes_on_success E"
    then show ?thesis using Inr by (rule clip_after_success)
  qed
  then have c: "clip_after E audio_file temp_audio (files w' audio_file) (files w temp_audio)
      = clip_after E audio_file temp_audio (files w' audio_file) (files w' temp_audio)"
    using assms(1) by simp
  show ?thesis
    unfolding formatted_data_pure assms(1) c by (rule refl)
qed

lemma main_idempotent:
  assumes "files w temp_audio = None \<or> writes_on_success E"
  shows "fst (main E (snd (main E w))) = fst (main E w)"
    and "files (snd (main E (snd (main E w)))) = files (snd (main E w))"
proof -
  define w1 where "w1 = snd (main E w)"
  have "fst (main E w1) = fst (main E w) \<and> files (snd (main E w1)) = files w1"
  proof (cases "exists audio_file w")
    case False
    then have f: "files w1 = files w"
      by (simp add: w1_def main_def)
    with False have "\<not> exists audio_file w1"
      by (simp add: exists_def)
    with False f show ?thesis
      by (simp add: main_def)
  next
    case True
    have f1: "files w1 = (files w)(temp_audio := None, output_json := output_after E w)"
      using True by (simp add: w1_def main_files)
    then have a1: "files w1 audio_file = files w audio_file"
      by simp
    with True have e1: "exists audio_file w1"
      by (simp add: exists_def)
    have t1: "files w1 temp_audio = None"
      using f1 by simp
    have "files w1 temp_audio = files w temp_audio \<or> writes_on_success E"
      using assms t1 by auto
    with a1 have fd: "formatted_data E w1 = formatted_data E w"
      by (rule formatted_data_cong)
    have o1: "files w1 output_json = output_after E w"
      using f1 by simp
    have oa: "output_after E w1 = files w1 output_json"
      unfolding o1 by (simp add: output_after_def fd o1 split: sum.splits)
    have "files (snd (main E w1)) = (files w1)(temp_audio := None, output_json := output_after E w1)"
      using e1 by (rule main_files)
    also have "\<dots> = files w1"
      unfolding oa using t1 by (auto simp: fun_eq_iff)
    finally have 2: "files (snd (main E w1)) = files w1" .
    have 1: "fst (main E w1) = fst (main E w)"
      using True e1 by (simp add: main_fst main_try_fst fd)
    from 1 2 show ?thesis by simp
  qed
  then show "fst (main E (snd (main E w))) = fst (main E w)"
    and "files (snd (main E (snd (main E w)))) = files (snd (main E w))"
    by (simp_all add: w1_def)
qed

lemma main_returned:
  assumes "fst (main E w) = Returned"
  shows "\<exists>j. formatted_data E w = Inr j \<and> snd (iterencode (float_repr E) 0 j) = None
           \<and> files (snd (main E w)) output_json = Some (fst (iterencode (float_repr E) 0 j))"
proof -
  have a: "exists audio_file w"
    using assms by (auto simp: main_def split: if_splits)
  with assms have t: "\<exists>u. fst (main_try E w) = Inr u"
    by (auto simp: main_fst split: sum.splits)
  then obtain j where fd: "formatted_data E w = Inr j"
    by (auto simp: main_try_fst split: sum.splits)
  with t have wr: "writable E output_json" and sn: "snd (written E output_json j) = None"
    by (auto simp: main_try_fst split: if_splits option.splits)
  from sn have we: "written E output_json j = iterencode (float_repr E) 0 j"
    by (rule written_None)
  have "files (snd (main E w)) output_json = Some (fst (written E output_json j))"
    using a fd wr by (simp add: main_files output_after_def)
  with fd sn we show ?thesis by auto
qed

lemma decimal_env_writes: "writes_on_success (decimal_env\<lparr>write_limit := l\<rparr>)"
  by (simp add: writes_on_success_def decimal_env_def)

lemma decimal_env_id: "decimal_env\<lparr>write_limit := (\<lambda>path. None)\<rparr> = decimal_env"
  by (simp add: decimal_env_def)

lemma decimal_report:
  "fst (report (decimal_env\<lparr>write_limit := l\<rparr>) cafe_transcript blank_world) = Inr ()"
  by (simp add: report_def cafe_transcript_def preview_line_def Let_def)

lemma decimal_written:
  "written decimal_env output_json cafe_transcript
     = iterencode (float_repr decimal_env) 0 cafe_transcript"
  by (simp add: written_def decimal_env_def split: prod.splits)

lemma decimal_returned: "fst (main decimal_env old_output_world) = Returned"
proof -
  have fd: "formatted_data decimal_env old_output_world = Inr cafe_transcript"
    using decimal_formatted_data [of "\<lambda>path. None" old_output_world]
    by (simp only: decimal_env_id)
  have rp: "fst (report decimal_env cafe_transcript blank_world) = Inr ()"
    using decimal_report [of "\<lambda>path. None"] by (simp only: decimal_env_id)
  show ?thesis
    using old_output_world_exists fd rp
    by (simp add: main_fst main_try_fst decimal_env_writable decimal_written cafe_text)
qed

lemma readonly_formatted_data:
  "formatted_data readonly_env w = Inr cafe_transcript"
  by (simp add: formatted_data_pure extract_outcome_def decimal_env_def cafe_transcript_def
        convert_to_json_format_def word_record_def strip_cafe readonly_env_def)

lemma failing_formatted_data:
  "formatted_data failing_env w = Inl (Exception (py ''ffmpeg failed: '' @ py ''Invalid data found''))"
  by (simp add: formatted_data_pure extract_outcome_def failing_env_def)

section \<open>The escapes and the layout of the output\<close>

lemma hex_digit_value_hex_digit: "d < 16 \<Longrightarrow> hex_digit_value (hex_digit d) = d"
  by (simp add: hex_digit_value_def hex_digit_def)

lemma hex_sum:
  "(n::nat) < 65536 \<Longrightarrow>
   16 * (16 * (16 * (n div 4096 mod 16) + n div 256 mod 16) + n div 16 mod 16) + n mod 16 = n"
proof -
  assume n: "n < 65536"
  have a: "n div 4096 mod 16 = n div 4096" using n by simp
  have e2: "n div 256 = n div 16 div 16" by (simp add: div_mult2_eq [symmetric])
  have e3: "n div 4096 = n div 256 div 16" by (simp add: div_mult2_eq [symmetric])
  have 1: "16 * (n div 16) + n mod 16 = n" by simp
  have 2: "16 * (n div 256) + n div 16 mod 16 = n div 16" unfolding e2 by simp
  have 3: "16 * (n div 4096) + n div 256 mod 16 = n div 256" unfolding e3 by simp
  show ?thesis by (simp only: a 3 2 1)
qed

lemma hex_value_hex4: "n < 65536 \<Longrightarrow> hex_value (hex4 n) = n"
proof -
  assume n: "n < 65536"
  have "hex_value (hex4 n) =
      16 * (16 * (16 * (n div 4096 mod 16) + n div 256 mod 16) + n div 16 mod 16) + n mod 16"
    by (simp add: hex_value_def hex4_def hex_digit_value_hex_digit)
  also have "\<dots> = n"
    using n by (rule hex_sum)
  finally show ?thesis .
qed

lemma length_hex4: "length (hex4 n) = 4"
  by (simp add: hex4_def)

lemma is_u_escape_hex4: "n < 65536 \<Longrightarrow> is_u_escape n ([92, 117] @ hex4 n)"
  by (simp add: is_u_escape_def hex_value_hex4 hex4_hex length_hex4)

lemma escape_char_spec: "c < 1114112 \<Longrightarrow> is_escape_of c (escape_char c)"
proof -
  assume c: "c < 1114112"
  show ?thesis
  proof (cases "c < 65536")
    case True
    then show ?thesis
      using is_u_escape_hex4 [of c]
      by (auto simp: is_escape_of_def escape_char_def)
  next
    case False
    define n where "n = c - 65536"
    have n: "n < 1048576" using c False by (simp add: n_def)
    then have d: "n div 1024 mod 1024 = n div 1024" by simp
    have hi: "55296 + n div 1024 < 65536" using n by simp
    have lo: "56320 + n mod 1024 < 65536"
    proof -
      have "n mod 1024 < 1024" by simp
      then show ?thesis by linarith
    qed
    have e: "escape_char c =
        ([92, 117] @ hex4 (55296 + n div 1024)) @ ([92, 117] @ hex4 (56320 + n mod 1024))"
      using False by (simp add: escape_char_def Let_def n_def [symmetric] d)
    have t: "take 6 (escape_char c) = [92, 117] @ hex4 (55296 + n div 1024)"
      unfolding e by (simp add: length_hex4)
    have dr: "drop 6 (escape_char c) = [92, 117] @ hex4 (56320 + n mod 1024)"
      unfolding e by (simp add: length_hex4)
    show ?thesis
      using False is_u_escape_hex4 [OF hi] is_u_escape_hex4 [OF lo]
      by (simp add: is_escape_of_def t dr high_surrogate_def low_surrogate_def n_def)
  qed
qed

lemma encode_basestring_ascii_spec:
  "list_all (\<lambda>c. c < 1114112) s \<Longrightarrow>
   \<exists>pieces. encode_basestring_ascii s = [34] @ concat pieces @ [34]
            \<and> list_all2 is_escape_of s pieces"
proof -
  assume a: "list_all (\<lambda>c. c < 1114112) s"
  have "list_all2 is_escape_of s (map escape_char s)"
    using a by (induction s) (simp_all add: escape_char_spec)
  then show ?thesis
    unfolding encode_basestring_ascii_def by blast
qed

lemma encode_keys:
  "encode_basestring_ascii (py ''words'') = [34] @ py ''words'' @ [34]"
  "encode_basestring_ascii (py ''word'') = [34] @ py ''word'' @ [34]"
  "encode_basestring_ascii (py ''start'') = [34] @ py ''start'' @ [34]"
  "encode_basestring_ascii (py ''end'') = [34] @ py ''end'' @ [34]"
  by (simp_all add: encode_basestring_ascii_def escape_char_def py_def)

lemma replicate_32:
  "replicate 2 (32::nat) = [32, 32]"
  "replicate 4 (32::nat) = [32, 32, 32, 32]"
  "replicate 6 (32::nat) = [32, 32, 32, 32, 32, 32]"
  by (simp_all add: numeral_eq_Suc)

lemma record_encoded:
  "emit_seq (emit_text (sep @ newline_indent (Suc (Suc 0))))
     (iterencode fr (Suc (Suc 0)) (timed_record e))
   = (sep @ [10] @ record_text (tokens fr e), None)"
proof -
  obtain w a b where e: "e = (w, a, b)" by (cases e)
  show ?thesis
    unfolding e
    by (simp add: timed_record_def tokens_def record_text_def emit_text_def encode_keys
          newline_indent_levels replicate_32)
qed

lemma records_encoded:
  "iterencode_list fr (Suc (Suc 0)) False (map timed_record es)
   = (concat (map (\<lambda>r'. py '','' @ [10] @ record_text r') (map (tokens fr) es)), None)"
proof (induction es)
  case Nil
  then show ?case by (simp add: emit_text_def)
next
  case (Cons e es)
  have "iterencode_list fr (Suc (Suc 0)) False (map timed_record (e # es))
      = emit_seq (emit_seq (emit_text (py '','' @ newline_indent (Suc (Suc 0))))
                   (iterencode fr (Suc (Suc 0)) (timed_record e)))
          (iterencode_list fr (Suc (Suc 0)) False (map timed_record es))"
    by (cases "iterencode fr (Suc (Suc 0)) (timed_record e)";
        cases "iterencode_list fr (Suc (Suc 0)) False (map timed_record es)";
        cases "snd (iterencode fr (Suc (Suc 0)) (timed_record e))")
       (simp_all add: emit_text_def)
  then show ?case
    by (simp add: record_encoded Cons.IH)
qed

lemma transcript_encoded:
  "iterencode fr 0 (timed_transcript es) = (transcript_text (map (tokens fr) es), None)"
proof (cases es)
  case Nil
  then show ?thesis
    by (simp add: timed_transcript_def emit_text_def encode_keys newline_indent_levels replicate_32)
       (simp add: py_def)
next
  case (Cons e rest)
  have first: "emit_seq (emit_text (py ''['' @ newline_indent (Suc (Suc 0))))
                 (emit_seq (iterencode fr (Suc (Suc 0)) (timed_record e))
                    (iterencode_list fr (Suc (Suc 0)) False (map timed_record rest)))
      = (py ''['' @ [10] @ record_text (tokens fr e)
         @ concat (map (\<lambda>r'. py '','' @ [10] @ record_text r') (map (tokens fr) rest)), None)"
  proof -
    have "emit_seq (emit_text (py ''['' @ newline_indent (Suc (Suc 0))))
                 (emit_seq (iterencode fr (Suc (Suc 0)) (timed_record e))
                    (iterencode_list fr (Suc (Suc 0)) False (map timed_record rest)))
        = emit_seq (emit_seq (emit_text (py ''['' @ newline_indent (Suc (Suc 0))))
                     (iterencode fr (Suc (Suc 0)) (timed_record e)))
            (iterencode_list fr (Suc (Suc 0)) False (map timed_record rest))"
      by (cases "iterencode fr (Suc (Suc 0)) (timed_record e)";
          cases "iterencode_list fr (Suc (Suc 0)) False (map timed_record rest)";
          cases "snd (iterencode fr (Suc (Suc 0)) (timed_record e))")
         (simp_all add: emit_text_def)
    then show ?thesis
      by (simp add: record_encoded records_encoded)
  qed
  show ?thesis
    unfolding Cons
    by (simp add: timed_transcript_def first)
       (simp add: emit_text_def encode_keys newline_indent_levels replicate_32, simp add: py_def)
qed

lemma written_unlimited:
  "write_limit E p = None \<Longrightarrow> written E p j = iterencode (float_repr E) 0 j"
  by (simp add: written_def split: prod.splits)

lemma write_json_transcript:
  "writable E p \<Longrightarrow> write_limit E p = None \<Longrightarrow>
   files (snd (write_json E p (timed_transcript es) w)) p
     = Some (transcript_text (map (tokens (float_repr E)) es))"
  by (simp add: write_json_files written_unlimited transcript_encoded)

lemma main_transcript:
  "exists audio_file w \<Longrightarrow> formatted_data E w = Inr (timed_transcript es) \<Longrightarrow>
   writable E output_json \<Longrightarrow> write_limit E output_json = None \<Longrightarrow>
   files (snd (main E w)) output_json = Some (transcript_text (map (tokens (float_repr E)) es))"
  by (simp add: main_files output_after_def written_unlimited transcript_encoded)

lemma escape_char_bmp:
  "128 \<le> c \<Longrightarrow> c < 65536 \<Longrightarrow>
   \<exists>ds. escape_char c = [92, 117] @ ds \<and> length ds = 4 \<and> list_all is_hex ds \<and> hex_value ds = c"
proof -
  assume "128 \<le> c" and c: "c < 65536"
  then have "escape_char c = [92, 117] @ hex4 c"
    by (simp add: escape_char_def)
  with c show ?thesis
    using length_hex4 [of c] hex4_hex [of c] hex_value_hex4 [of c] by blast
qed

lemma surrogates_spell:
  "65536 \<le> c \<Longrightarrow> 65536 + (high_surrogate c - 55296) * 1024 + (low_surrogate c - 56320) = c"
  by (simp add: high_surrogate_def low_surrogate_def)

lemma escape_char_astral:
  assumes "65536 \<le> c" and "c < 1114112"
  shows "\<exists>hs ls. escape_char c = [92, 117] @ hs @ [92, 117] @ ls
           \<and> length hs = 4 \<and> length ls = 4 \<and> list_all is_hex hs \<and> list_all is_hex ls
           \<and> hex_value hs = high_surrogate c \<and> hex_value ls = low_surrogate c
           \<and> 65536 + (hex_value hs - 55296) * 1024 + (hex_value ls - 56320) = c"
proof -
  define n where "n = c - 65536"
  have n: "n < 1048576" using assms by (simp add: n_def)
  then have d: "n div 1024 mod 1024 = n div 1024" by simp
  have hi: "high_surrogate c < 65536" using n by (simp add: high_surrogate_def n_def)
  have "n mod 1024 < 1024" by simp
  then have lo: "low_surrogate c < 65536" unfolding low_surrogate_def n_def by linarith
  have e: "escape_char c =
        [92, 117] @ hex4 (high_surrogate c) @ [92, 117] @ hex4 (low_surrogate c)"
    using assms(1)
    by (simp add: escape_char_def Let_def n_def [symmetric] d high_surrogate_def low_surrogate_def)
  show ?thesis
    using e hex_value_hex4 [OF hi] hex_value_hex4 [OF lo] surrogates_spell [OF assms(1)]
          length_hex4 hex4_hex
    by (intro exI [of _ "hex4 (high_surrogate c)"] exI [of _ "hex4 (low_surrogate c)"]) simp
qed

lemma timed_transcript_json_word:
  "timed_transcript (map (\<lambda>(wd, a, b). (strip wd, a, b)) es)
   = transcript (map json_word (map (\<lambda>(wd, a, b). (wd, PyNum a, PyNum b)) es))"
  by (simp add: timed_transcript_def transcript_def timed_record_def json_word_def
        split: prod.splits)

lemma cafe_timed: "cafe_transcript = timed_transcript [([99, 97, 102, 233], 0, 1)]"
  by (simp add: cafe_transcript_def timed_transcript_def timed_record_def)

lemma decimal_env_unlimited: "write_limit decimal_env p = None"
  by (simp add: decimal_env_def)

lemma cafe_code_points: "list_all (\<lambda>c. c < 1114112) [99, 97, 102, 233 :: nat]"
  by simp

section \<open>The claims about the formatter\<close>

text \<open>
  C1.  For a result with the shape the engine gives it, the formatter returns the transcript
  whose words are the word entries of all segments in encounter order, each with its text
  stripped and its two times copied.  Stripping removes a run of whitespace at each end and
  nothing else, and leaves no whitespace at either end.  A result with no segments gives the
  empty transcript, and the scenario of the specification gives the single word \<open>Hello\<close>.
\<close>

theorem formatter_flattens:
  "(engine_result r = Some segs \<longrightarrow>
      convert_to_json_format r = Inr (transcript (map json_word (concat segs))))
   \<and> json_word (t, s, e) =
       PyDict [(py ''word'', PyStr (strip t)), (py ''start'', s), (py ''end'', e)]
   \<and> (\<exists>pre suf. t = pre @ strip t @ suf \<and> list_all is_space pre \<and> list_all is_space suf)
   \<and> (strip t \<noteq> [] \<longrightarrow> \<not> is_space (hd (strip t)) \<and> \<not> is_space (last (strip t)))
   \<and> convert_to_json_format (PyDict [(py ''segments'', PyList [])] :: 't pyval)
       = Inr (PyDict [(py ''words'', PyList [])])
   \<and> convert_to_json_format example_result
       = Inr (PyDict [(py ''words'',
                PyList [PyDict [(py ''word'', PyStr (py ''Hello'')),
                                (py ''start'', PyNum 0), (py ''end'', PyNum (4 / 10))]])])"
proof (intro conjI impI)
  show "convert_to_json_format r = Inr (transcript (map json_word (concat segs)))"
    if "engine_result r = Some segs"
    using that by (rule convert_engine)
  show "json_word (t, s, e) =
       PyDict [(py ''word'', PyStr (strip t)), (py ''start'', s), (py ''end'', e)]"
    by (simp add: json_word_def)
  show "\<exists>pre suf. t = pre @ strip t @ suf \<and> list_all is_space pre \<and> list_all is_space suf"
    by (rule strip_decompose)
  show "\<not> is_space (hd (strip t))" if "strip t \<noteq> []"
    using strip_ends [OF that] by simp
  show "\<not> is_space (last (strip t))" if "strip t \<noteq> []"
    using strip_ends [OF that] by simp
  show "convert_to_json_format (PyDict [(py ''segments'', PyList [])] :: 't pyval)
       = Inr (PyDict [(py ''words'', PyList [])])"
    by (simp add: convert_to_json_format_def)
  show "convert_to_json_format example_result
       = Inr (PyDict [(py ''words'',
                PyList [PyDict [(py ''word'', PyStr (py ''Hello'')),
                                (py ''start'', PyNum 0), (py ''end'', PyNum (4 / 10))]])])"
    using convert_engine [OF example_engine_result]
    by (simp add: transcript_def json_word_def strip_Hello)
qed

theorem formatter_flattens_witness:
  "engine_result example_result = Some [[(py '' Hello'', PyNum 0, PyNum (4 / 10))], []]
   \<and> convert_to_json_format example_result
       = Inr (transcript [json_word (py '' Hello'', PyNum 0, PyNum (4 / 10))])
   \<and> strip (py '' Hello'') \<noteq> []
   \<and> \<not> is_space (hd (strip (py '' Hello'')))
   \<and> \<not> is_space (last (strip (py '' Hello'')))"
proof -
  note T = formatter_flattens [of example_result
             "[[(py '' Hello'', PyNum 0, PyNum (4 / 10))], []]" "py '' Hello''"]
  have 1: "engine_result example_result = Some [[(py '' Hello'', PyNum 0, PyNum (4 / 10))], []]"
    by (rule example_engine_result)
  from T 1 have 2: "convert_to_json_format example_result
      = Inr (transcript (map json_word (concat [[(py '' Hello'', PyNum 0, PyNum (4 / 10))], []])))"
    by blast
  have ne: "py ''Hello'' \<noteq> []"
    by (simp add: py_def)
  have 3: "strip (py '' Hello'') \<noteq> []"
    unfolding strip_Hello by (rule ne)
  from T 3 have 4: "\<not> is_space (hd (strip (py '' Hello''))) \<and> \<not> is_space (last (strip (py '' Hello'')))"
    by blast
  from 1 2 3 4 show ?thesis by simp
qed

text \<open>
  C9.  The formatter drops no word entry: whenever it returns, the transcript has as many
  words as there are word entries in all segments, and for a result with the engine's shape it
  does return.  A text made of whitespace only is stripped to the empty string and its
  record is kept.
\<close>

theorem formatter_keeps_every_word:
  "(convert_to_json_format r = Inr out \<longrightarrow>
      (\<exists>ws. out = PyDict [(py ''words'', PyList ws)] \<and> length ws = length (word_entries r)))
   \<and> (engine_result r = Some segs \<longrightarrow>
      (\<exists>ws. convert_to_json_format r = Inr (PyDict [(py ''words'', PyList ws)])
            \<and> length ws = sum_list (map length segs)
            \<and> length (word_entries r) = sum_list (map length segs)))
   \<and> (list_all is_space t \<longrightarrow> strip t = [])
   \<and> convert_to_json_format blank_result
       = Inr (PyDict [(py ''words'',
                PyList [PyDict [(py ''word'', PyStr []),
                                (py ''start'', PyNum 1), (py ''end'', PyNum 2)]])])"
proof (intro conjI impI)
  show "\<exists>ws. out = PyDict [(py ''words'', PyList ws)] \<and> length ws = length (word_entries r)"
    if "convert_to_json_format r = Inr out"
    using convert_length [OF that] by (simp add: transcript_def)
  show "\<exists>ws. convert_to_json_format r = Inr (PyDict [(py ''words'', PyList ws)])
            \<and> length ws = sum_list (map length segs)
            \<and> length (word_entries r) = sum_list (map length segs)"
    if "engine_result r = Some segs"
    using convert_engine [OF that] word_entries_engine [OF that]
    by (simp add: transcript_def length_concat)
  show "strip t = []" if "list_all is_space t"
    using that by (rule strip_all_space)
  show "convert_to_json_format blank_result
       = Inr (PyDict [(py ''words'',
                PyList [PyDict [(py ''word'', PyStr []),
                                (py ''start'', PyNum 1), (py ''end'', PyNum 2)]])])"
    using convert_engine [OF blank_engine_result]
    by (simp add: transcript_def json_word_def strip_blank)
qed

theorem formatter_keeps_every_word_witness:
  "engine_result blank_result = Some [[(py ''  '', PyNum 1, PyNum 2)]]
   \<and> list_all is_space (py ''  '')
   \<and> strip (py ''  '') = []
   \<and> (\<exists>ws. convert_to_json_format blank_result = Inr (PyDict [(py ''words'', PyList ws)])
          \<and> length ws = 1 \<and> length (word_entries blank_result) = 1)"
proof -
  note T = formatter_keeps_every_word [of blank_result
             "PyDict [(py ''words'', PyList [])]" "[[(py ''  '', PyNum 1, PyNum 2)]]" "py ''  ''"]
  have 1: "engine_result blank_result = Some [[(py ''  '', PyNum 1, PyNum 2)]]"
    by (rule blank_engine_result)
  have 2: "list_all is_space (py ''  '')"
    by (rule blank_all_space)
  from T 2 have 3: "strip (py ''  '') = []"
    by blast
  from T 1 have "\<exists>ws. convert_to_json_format blank_result = Inr (PyDict [(py ''words'', PyList ws)])
      \<and> length ws = sum_list (map length [[(py ''  '', PyNum (1::real), PyNum (2::real))]])
      \<and> length (word_entries blank_result)
          = sum_list (map length [[(py ''  '', PyNum (1::real), PyNum (2::real))]])"
    by blast
  then have 4: "\<exists>ws. convert_to_json_format blank_result = Inr (PyDict [(py ''words'', PyList ws)])
          \<and> length ws = 1 \<and> length (word_entries blank_result) = 1"
    by simp
  from 1 2 3 4 show ?thesis by blast
qed

text \<open>
  C6.  When the result has the engine's shape with numbers for all times, the starts are in
  order inside every segment, every word of an earlier segment starts no later than every
  word of a later segment, and every entry has its start no later than its end, then the
  formatter returns a transcript in which every word has its start no later than its end
  and the starts are in non-decreasing order over the whole transcript.
\<close>

theorem formatter_keeps_timing_order:
  fixes r :: "('t::ord) pyval"
  assumes "engine_result r = Some segs"
    and "those (map (\<lambda>seg. those (map timed_word seg)) segs) = Some tss"
    and "chronological tss"
    and "list_all (list_all (\<lambda>(a, b). a \<le> b)) tss"
  shows "\<exists>ws tms. convert_to_json_format r = Inr (PyDict [(py ''words'', PyList ws)])
           \<and> those (map record_times ws) = Some tms
           \<and> list_all (\<lambda>(a, b). a \<le> b) tms
           \<and> sorted_wrt (\<lambda>x y. fst x \<le> fst y) tms"
proof -
  have t: "those (map timed_word (concat segs)) = Some (concat tss)"
    using assms(2) by (rule those_concat)
  from convert_times [OF assms(1) t] obtain ws where
    c: "convert_to_json_format r = Inr (transcript ws)" and
    w: "those (map record_times ws) = Some (concat tss)"
    by blast
  have le: "list_all (\<lambda>(a, b). a \<le> b) (concat tss)"
    using assms(4) by (auto simp: list_all_iff)
  have so: "sorted_wrt (\<lambda>x y. fst x \<le> fst y) (concat tss)"
    using assms(3) by (simp add: chronological_def sorted_wrt_concat_iff)
  from c w le so show ?thesis
    by (auto simp: transcript_def)
qed

theorem formatter_keeps_timing_order_witness:
  "engine_result timed_result =
     Some [[(py '' The'', PyNum 0, PyNum (32 / 100)),
            (py '' Picture'', PyNum (32 / 100), PyNum (81 / 100))],
           [(py '' of'', PyNum 1, PyNum (12 / 10))]]
   \<and> chronological [[(0, 32 / 100), (32 / 100, 81 / 100)], [(1 :: real, 12 / 10 :: real)]]
   \<and> (\<exists>ws tms. convert_to_json_format timed_result = Inr (PyDict [(py ''words'', PyList ws)])
           \<and> those (map record_times ws) = Some tms
           \<and> list_all (\<lambda>(a, b). a \<le> b) tms
           \<and> sorted_wrt (\<lambda>x y. fst x \<le> fst y) tms)"
proof -
  have 1: "those (map (\<lambda>seg. those (map timed_word seg))
             [[(py '' The'', PyNum 0, PyNum (32 / 100)),
               (py '' Picture'', PyNum (32 / 100), PyNum (81 / 100))],
              [(py '' of'', PyNum 1, PyNum (12 / 10))]])
           = Some [[(0, 32 / 100), (32 / 100, 81 / 100)], [(1 :: real, 12 / 10 :: real)]]"
    by (simp add: timed_word_def)
  have 2: "chronological [[(0, 32 / 100), (32 / 100, 81 / 100)], [(1 :: real, 12 / 10 :: real)]]"
    by (simp add: chronological_def)
  have 3: "list_all (list_all (\<lambda>(a, b). a \<le> b))
             [[(0, 32 / 100), (32 / 100, 81 / 100)], [(1 :: real, 12 / 10 :: real)]]"
    by simp
  from formatter_keeps_timing_order [OF timed_engine_result 1 2 3] timed_engine_result 2
  show ?thesis by blast
qed

text \<open>
  C8.  For a result whose containers have the engine's types, with any of the keys missing:
  the formatter raises exactly when some word entry lacks \<open>"word"\<close>, \<open>"start"\<close> or
  \<open>"end"\<close>, and then it raises the \<open>KeyError\<close> of the first such key met; otherwise it
  returns one record per entry.  A result without \<open>"segments"\<close> gives the empty
  transcript, and a segment without \<open>"words"\<close> can be left out without changing what
  the formatter does.
\<close>

theorem formatter_missing_keys:
  "(result_shape r = Some segs \<longrightarrow>
      convert_to_json_format r =
        (case expected_words (concat segs) of
           Inl k \<Rightarrow> Inl (KeyError k)
         | Inr ys \<Rightarrow> Inr (PyDict [(py ''words'', PyList (map json_word ys))])))
   \<and> (result_shape r = Some segs \<longrightarrow>
        (if list_ex incomplete (concat segs)
         then \<exists>k \<in> {py ''word'', py ''start'', py ''end''}. convert_to_json_format r = Inl (KeyError k)
         else \<exists>ws. convert_to_json_format r = Inr (PyDict [(py ''words'', PyList ws)])
                  \<and> length ws = length (concat segs)))
   \<and> (map_of kvs (py ''segments'') = None \<longrightarrow>
        convert_to_json_format (PyDict kvs) = Inr (PyDict [(py ''words'', PyList [])]))
   \<and> (map_of kvs (py ''words'') = None \<longrightarrow>
        convert_to_json_format (PyDict [(py ''segments'', PyList (before @ PyDict kvs # after))])
        = convert_to_json_format (PyDict [(py ''segments'', PyList (before @ after))]))"
proof (intro conjI impI)
  assume a: "result_shape r = Some segs"
  show 1: "convert_to_json_format r =
        (case expected_words (concat segs) of
           Inl k \<Rightarrow> Inl (KeyError k)
         | Inr ys \<Rightarrow> Inr (PyDict [(py ''words'', PyList (map json_word ys))]))"
    using convert_shape [OF a] unfolding transcript_def .
  show "if list_ex incomplete (concat segs)
         then \<exists>k \<in> {py ''word'', py ''start'', py ''end''}. convert_to_json_format r = Inl (KeyError k)
         else \<exists>ws. convert_to_json_format r = Inr (PyDict [(py ''words'', PyList ws)])
                  \<and> length ws = length (concat segs)"
  proof (cases "expected_words (concat segs)")
    case (Inl k)
    with 1 expected_words_Inl [OF Inl] show ?thesis by auto
  next
    case (Inr ys)
    with 1 expected_words_Inr [OF Inr] show ?thesis by auto
  qed
next
  assume "map_of kvs (py ''segments'') = None"
  then show "convert_to_json_format (PyDict kvs) = Inr (PyDict [(py ''words'', PyList [])])"
    by (simp add: convert_to_json_format_def)
next
  assume "map_of kvs (py ''words'') = None"
  then show "convert_to_json_format (PyDict [(py ''segments'', PyList (before @ PyDict kvs # after))])
        = convert_to_json_format (PyDict [(py ''segments'', PyList (before @ after))])"
    by (simp add: convert_to_json_format_def segment_without_words)
qed

theorem formatter_missing_keys_witness:
  "result_shape gappy_result =
     Some [[], [(Some (py '' a''), Some (PyNum 0), Some (PyNum 1)),
                (Some (py '' b''), Some (PyNum 1), None)]]
   \<and> convert_to_json_format gappy_result = Inl (KeyError (py ''end''))
   \<and> map_of [(py ''text'', PyStr (py ''a b'') :: real pyval)] (py ''segments'') = None
   \<and> convert_to_json_format (PyDict [(py ''text'', PyStr (py ''a b'') :: real pyval)])
       = Inr (PyDict [(py ''words'', PyList [])])
   \<and> map_of [(py ''text'', PyStr (py ''a b'') :: real pyval)] (py ''words'') = None
   \<and> convert_to_json_format
         (PyDict [(py ''segments'', PyList ([] @ PyDict [(py ''text'', PyStr (py ''a b''))] # []))])
       = convert_to_json_format (PyDict [(py ''segments'', PyList ([] @ []))] :: real pyval)"
proof -
  note T = formatter_missing_keys [of gappy_result
      "[[], [(Some (py '' a''), Some (PyNum 0), Some (PyNum 1)),
             (Some (py '' b''), Some (PyNum 1), None)]]"
      "[(py ''text'', PyStr (py ''a b''))]" "[]" "[]"]
  have 1: "result_shape gappy_result =
     Some [[], [(Some (py '' a''), Some (PyNum 0), Some (PyNum 1)),
                (Some (py '' b''), Some (PyNum 1), None)]]"
    by (rule gappy_result_shape)
  from T 1 have "convert_to_json_format gappy_result =
        (case expected_words (concat [[], [(Some (py '' a''), Some (PyNum 0), Some (PyNum 1)),
                (Some (py '' b''), Some (PyNum 1), None)]]) of
           Inl k \<Rightarrow> Inl (KeyError k)
         | Inr ys \<Rightarrow> Inr (PyDict [(py ''words'', PyList (map json_word ys))]))"
    by blast
  then have 2: "convert_to_json_format gappy_result = Inl (KeyError (py ''end''))"
    by simp
  have 3: "map_of [(py ''text'', PyStr (py ''a b'') :: real pyval)] (py ''segments'') = None"
    by simp
  have 4: "map_of [(py ''text'', PyStr (py ''a b'') :: real pyval)] (py ''words'') = None"
    by simp
  from T 3 have 5: "convert_to_json_format (PyDict [(py ''text'', PyStr (py ''a b'') :: real pyval)])
       = Inr (PyDict [(py ''words'', PyList [])])"
    by blast
  from T 4 have 6: "convert_to_json_format
         (PyDict [(py ''segments'', PyList ([] @ PyDict [(py ''text'', PyStr (py ''a b''))] # []))])
       = convert_to_json_format (PyDict [(py ''segments'', PyList ([] @ []))] :: real pyval)"
    by blast
  from 1 2 3 4 5 6 show ?thesis by blast
qed

section \<open>The claims about the run\<close>

text \<open>
  C3.  The extractor first runs the media tool with the stream-copy command line, bounded to
  60 seconds.  It runs the re-encoding command line (same bound, codec \<open>libmp3lame\<close>)
  exactly when the first run came back with a non-zero return code, which is the failure
  the code tests for.  When the second run comes back with a non-zero return code too, the
  extractor raises an exception whose message carries the tool's stderr, and the run ends
  with that exception: the only calls it makes are the two runs of the tool and the removal
  of the clip, so the recogniser is never called.
\<close>

theorem extractor_falls_back:
  "new_calls w (snd (extract_first_60_seconds E a out w)) =
     (if copy_failed E a out w
      then [Spawn (copy_cmd a out), Spawn (reencode_cmd a out)]
      else [Spawn (copy_cmd a out)])
   \<and> copy_cmd a out = [py ''ffmpeg'', py ''-i'', a, py ''-t'', py ''60'',
                       py ''-acodec'', py ''copy'', py ''-y'', out]
   \<and> reencode_cmd a out = [py ''ffmpeg'', py ''-i'', a, py ''-t'', py ''60'',
                           py ''-acodec'', py ''libmp3lame'', py ''-y'', out]
   \<and> (a \<noteq> out
        \<and> subprocess E (copy_cmd a out) (files w a) = Completed rc err fx \<and> rc \<noteq> 0
        \<and> subprocess E (reencode_cmd a out) (files w a) = Completed rc' err' fx' \<and> rc' \<noteq> 0
      \<longrightarrow> fst (extract_first_60_seconds E a out w) = Inl (Exception (py ''ffmpeg failed: '' @ err')))
   \<and> (exists audio_file w
        \<and> subprocess E (copy_cmd audio_file temp_audio) (files w audio_file) = Completed rc err fx
        \<and> rc \<noteq> 0
        \<and> subprocess E (reencode_cmd audio_file temp_audio) (files w audio_file)
            = Completed rc' err' fx'
        \<and> rc' \<noteq> 0
      \<longrightarrow> fst (main E w) = Uncaught (Exception (py ''ffmpeg failed: '' @ err'))
          \<and> set (new_calls w (snd (main E w)))
              \<subseteq> {Spawn (copy_cmd audio_file temp_audio),
                  Spawn (reencode_cmd audio_file temp_audio), Remove temp_audio})"
proof (intro conjI impI)
  show "new_calls w (snd (extract_first_60_seconds E a out w)) =
     (if copy_failed E a out w
      then [Spawn (copy_cmd a out), Spawn (reencode_cmd a out)]
      else [Spawn (copy_cmd a out)])"
    by (rule new_calls_append) (rule extract_calls)
  show "copy_cmd a out = [py ''ffmpeg'', py ''-i'', a, py ''-t'', py ''60'',
                       py ''-acodec'', py ''copy'', py ''-y'', out]"
    by (simp add: copy_cmd_def)
  show "reencode_cmd a out = [py ''ffmpeg'', py ''-i'', a, py ''-t'', py ''60'',
                           py ''-acodec'', py ''libmp3lame'', py ''-y'', out]"
    by (simp add: reencode_cmd_def)
next
  assume "a \<noteq> out
        \<and> subprocess E (copy_cmd a out) (files w a) = Completed rc err fx \<and> rc \<noteq> 0
        \<and> subprocess E (reencode_cmd a out) (files w a) = Completed rc' err' fx' \<and> rc' \<noteq> 0"
  then show "fst (extract_first_60_seconds E a out w)
      = Inl (Exception (py ''ffmpeg failed: '' @ err'))"
    using extract_both_fail [of a out E w rc err fx rc' err' fx'] by blast
next
  assume h: "exists audio_file w
        \<and> subprocess E (copy_cmd audio_file temp_audio) (files w audio_file) = Completed rc err fx
        \<and> rc \<noteq> 0
        \<and> subprocess E (reencode_cmd audio_file temp_audio) (files w audio_file)
            = Completed rc' err' fx'
        \<and> rc' \<noteq> 0"
  then show "fst (main E w) = Uncaught (Exception (py ''ffmpeg failed: '' @ err'))"
    using main_both_fail(1) [of w E rc err fx rc' err' fx'] by blast
  from h have "new_calls w (snd (main E w)) =
           [Spawn (copy_cmd audio_file temp_audio), Spawn (reencode_cmd audio_file temp_audio)]
           @ (if exists temp_audio (snd (main_try E w)) then [Remove temp_audio] else [])"
    using main_both_fail(2) [of w E rc err fx rc' err' fx'] by blast
  then show "set (new_calls w (snd (main E w)))
              \<subseteq> {Spawn (copy_cmd audio_file temp_audio),
                  Spawn (reencode_cmd audio_file temp_audio), Remove temp_audio}"
    by auto
qed

theorem extractor_falls_back_witness:
  "audio_file \<noteq> temp_audio
   \<and> exists audio_file input_world
   \<and> subprocess failing_env (copy_cmd audio_file temp_audio) (files input_world audio_file)
       = Completed 1 (py ''Invalid data found'') (Wrote [0])
   \<and> (1 :: int) \<noteq> 0
   \<and> subprocess failing_env (reencode_cmd audio_file temp_audio) (files input_world audio_file)
       = Completed 1 (py ''Invalid data found'') (Wrote [0])
   \<and> fst (extract_first_60_seconds failing_env audio_file temp_audio input_world)
       = Inl (Exception (py ''ffmpeg failed: '' @ py ''Invalid data found''))
   \<and> fst (main failing_env input_world)
       = Uncaught (Exception (py ''ffmpeg failed: '' @ py ''Invalid data found''))
   \<and> set (new_calls input_world (snd (main failing_env input_world)))
              \<subseteq> {Spawn (copy_cmd audio_file temp_audio),
                  Spawn (reencode_cmd audio_file temp_audio), Remove temp_audio}"
proof -
  note T = extractor_falls_back [of input_world failing_env audio_file temp_audio
             1 "py ''Invalid data found''" "Wrote [0]" 1 "py ''Invalid data found''" "Wrote [0]"]
  have 1: "audio_file \<noteq> temp_audio" by simp
  have 2: "exists audio_file input_world" by (rule input_world_exists)
  have 3: "subprocess failing_env (copy_cmd audio_file temp_audio) (files input_world audio_file)
       = Completed 1 (py ''Invalid data found'') (Wrote [0])"
    by (rule failing_env_subprocess)
  have 4: "(1 :: int) \<noteq> 0" by simp
  have 5: "subprocess failing_env (reencode_cmd audio_file temp_audio) (files input_world audio_file)
       = Completed 1 (py ''Invalid data found'') (Wrote [0])"
    by (rule failing_env_subprocess)
  from T 1 3 4 5 have 6: "fst (extract_first_60_seconds failing_env audio_file temp_audio input_world)
       = Inl (Exception (py ''ffmpeg failed: '' @ py ''Invalid data found''))"
    by blast
  from T 2 3 4 5 have 7: "fst (main failing_env input_world)
       = Uncaught (Exception (py ''ffmpeg failed: '' @ py ''Invalid data found''))
   \<and> set (new_calls input_world (snd (main failing_env input_world)))
              \<subseteq> {Spawn (copy_cmd audio_file temp_audio),
                  Spawn (reencode_cmd audio_file temp_audio), Remove temp_audio}"
    by blast
  from 1 2 3 4 5 6 7 show ?thesis by blast
qed

text \<open>
  C5.  When the input file is absent, the run prints the error and the hint, calls
  \<open>sys.exit(1)\<close>, makes no call to the media tool, to the recogniser or to the file
  system, and leaves every file as it was.
\<close>

theorem missing_input_stops:
  "\<not> exists audio_file w \<longrightarrow>
     fst (main E w) = SysExit 1
     \<and> exit_status (fst (main E w)) \<noteq> 0
     \<and> files (snd (main E w)) = files w
     \<and> new_calls w (snd (main E w)) = []
     \<and> console (snd (main E w)) =
         console w @ [py ''ERROR: Audio file not found: '' @ audio_file,
                      10 # py ''Please make sure the audio file is in the public/ folder'']"
  by (simp add: main_def new_calls_def)

theorem missing_input_stops_witness:
  "\<not> exists audio_file blank_world
   \<and> fst (main decimal_env blank_world) = SysExit 1
   \<and> exit_status (fst (main decimal_env blank_world)) \<noteq> 0
   \<and> files (snd (main decimal_env blank_world)) = files blank_world
   \<and> new_calls blank_world (snd (main decimal_env blank_world)) = []"
  using missing_input_stops [of blank_world decimal_env] blank_world_no_input
  by blast

text \<open>
  C2.  A run that finds its input file ends without a file at the clip's path, whether it
  returns or ends with an exception, whatever the media tool, the recogniser and the writer
  did; when the clip is there at the end of the \<open>try\<close> block, removing it is the last
  call of the run.
\<close>

theorem temporary_clip_removed:
  "exists audio_file w \<longrightarrow>
     files (snd (main E w)) temp_audio = None
     \<and> (fst (main E w) = Returned \<or> (\<exists>e. fst (main E w) = Uncaught e))
     \<and> (exists temp_audio (snd (main_try E w)) \<longrightarrow>
          last (calls (snd (main E w))) = Remove temp_audio)"
proof (intro impI conjI)
  assume a: "exists audio_file w"
  show "files (snd (main E w)) temp_audio = None"
    using a by (simp add: main_files)
  show "fst (main E w) = Returned \<or> (\<exists>e. fst (main E w) = Uncaught e)"
    using a by (simp add: main_fst split: sum.splits)
  show "last (calls (snd (main E w))) = Remove temp_audio"
    if "exists temp_audio (snd (main_try E w))"
    using a that by (simp add: main_snd main_finally_calls)
qed

theorem temporary_clip_removed_witness:
  "exists audio_file input_world
   \<and> exists temp_audio (snd (main_try failing_env input_world))
   \<and> files (snd (main failing_env input_world)) temp_audio = None
   \<and> last (calls (snd (main failing_env input_world))) = Remove temp_audio"
  using temporary_clip_removed [of input_world failing_env]
        input_world_exists failing_clip_exists
  by blast

text \<open>
  C4, in the form that holds of the code.  In a run that finds its input file: when
  extraction, transcription or formatting fails, the run ends with that exception, the
  output file is never opened and is left as it was; when the output file cannot be opened,
  it is left as it was too.  Once the file is opened it is truncated and holds what the
  writer wrote: a prefix of the serialised transcript, which is the whole of it when the
  writer finished without an exception, and otherwise the run ends with the writer's
  exception.  In particular, when the media tool returns a non-zero code under both
  strategies, nothing is formatted, the output file is left as it was, and the only calls
  of the run are the two runs of the tool and the removal of the clip.
\<close>

theorem output_written_after_formatting:
  "exists audio_file w \<longrightarrow>
     (formatted_data E w = Inl e \<longrightarrow>
        fst (main E w) = Uncaught e
        \<and> files (snd (main E w)) output_json = files w output_json
        \<and> OpenWrite output_json \<notin> set (new_calls w (snd (main E w))))
   \<and> (formatted_data E w = Inr j \<and> \<not> writable E output_json \<longrightarrow>
        fst (main E w) = Uncaught PermissionError
        \<and> files (snd (main E w)) output_json = files w output_json)
   \<and> (formatted_data E w = Inr j \<and> writable E output_json \<longrightarrow>
        files (snd (main E w)) output_json = Some (fst (written E output_json j))
        \<and> (\<exists>rest. fst (iterencode (float_repr E) 0 j) = fst (written E output_json j) @ rest)
        \<and> (snd (written E output_json j) = None \<longrightarrow>
             written E output_json j = iterencode (float_repr E) 0 j)
        \<and> (\<forall>x. snd (written E output_json j) = Some x \<longrightarrow> fst (main E w) = Uncaught x))
   \<and> (subprocess E (copy_cmd audio_file temp_audio) (files w audio_file) = Completed rc err fx
        \<and> rc \<noteq> 0
        \<and> subprocess E (reencode_cmd audio_file temp_audio) (files w audio_file)
            = Completed rc' err' fx'
        \<and> rc' \<noteq> 0
      \<longrightarrow> formatted_data E w = Inl (Exception (py ''ffmpeg failed: '' @ err'))
          \<and> files (snd (main E w)) output_json = files w output_json
          \<and> set (new_calls w (snd (main E w)))
              \<subseteq> {Spawn (copy_cmd audio_file temp_audio),
                  Spawn (reencode_cmd audio_file temp_audio), Remove temp_audio})"
proof (intro impI conjI allI)
  assume a: "exists audio_file w"
  {
    assume fd: "formatted_data E w = Inl e"
    show "fst (main E w) = Uncaught e"
      using a fd by (simp add: main_fst main_try_fst)
    show "files (snd (main E w)) output_json = files w output_json"
      using a fd by (simp add: main_files output_after_def)
    show "OpenWrite output_json \<notin> set (new_calls w (snd (main E w)))"
      using a fd by (rule no_open_without_data)
  }
  {
    assume h: "formatted_data E w = Inr j \<and> \<not> writable E output_json"
    show "fst (main E w) = Uncaught PermissionError"
      using a h by (simp add: main_fst main_try_fst)
    show "files (snd (main E w)) output_json = files w output_json"
      using a h by (simp add: main_files output_after_def)
  }
  {
    assume h: "formatted_data E w = Inr j \<and> writable E output_json"
    show "files (snd (main E w)) output_json = Some (fst (written E output_json j))"
      using a h by (simp add: main_files output_after_def)
    show "\<exists>rest. fst (iterencode (float_repr E) 0 j) = fst (written E output_json j) @ rest"
      by (rule written_prefix)
    show "written E output_json j = iterencode (float_repr E) 0 j"
      if "snd (written E output_json j) = None"
      using that by (rule written_None)
    show "fst (main E w) = Uncaught x" if "snd (written E output_json j) = Some x" for x
      using a h that by (simp add: main_fst main_try_fst)
  }
  {
    assume h: "subprocess E (copy_cmd audio_file temp_audio) (files w audio_file) = Completed rc err fx
        \<and> rc \<noteq> 0
        \<and> subprocess E (reencode_cmd audio_file temp_audio) (files w audio_file)
            = Completed rc' err' fx'
        \<and> rc' \<noteq> 0"
    show fd: "formatted_data E w = Inl (Exception (py ''ffmpeg failed: '' @ err'))"
      using a h main_both_fail(3) [of w E rc err fx rc' err' fx'] by blast
    show "files (snd (main E w)) output_json = files w output_json"
      using a fd by (simp add: main_files output_after_def)
    have "new_calls w (snd (main E w)) =
           [Spawn (copy_cmd audio_file temp_audio), Spawn (reencode_cmd audio_file temp_audio)]
           @ (if exists temp_audio (snd (main_try E w)) then [Remove temp_audio] else [])"
      using a h main_both_fail(2) [of w E rc err fx rc' err' fx'] by blast
    then show "set (new_calls w (snd (main E w)))
              \<subseteq> {Spawn (copy_cmd audio_file temp_audio),
                  Spawn (reencode_cmd audio_file temp_audio), Remove temp_audio}"
      by auto
  }
qed

theorem output_written_after_formatting_witness:
  "exists audio_file old_output_world
   \<and> exists audio_file input_world
   \<and> formatted_data failing_env input_world
       = Inl (Exception (py ''ffmpeg failed: '' @ py ''Invalid data found''))
   \<and> files (snd (main failing_env input_world)) output_json = files input_world output_json
   \<and> OpenWrite output_json \<notin> set (new_calls input_world (snd (main failing_env input_world)))
   \<and> formatted_data readonly_env old_output_world = Inr cafe_transcript
   \<and> \<not> writable readonly_env output_json
   \<and> files (snd (main readonly_env old_output_world)) output_json
       = files old_output_world output_json
   \<and> formatted_data full_disk_env old_output_world = Inr cafe_transcript
   \<and> writable full_disk_env output_json
   \<and> files (snd (main full_disk_env old_output_world)) output_json
       = Some (fst (written full_disk_env output_json cafe_transcript))"
proof -
  note T1 = output_written_after_formatting
    [where w = input_world and E = failing_env
       and e = "Exception (py ''ffmpeg failed: '' @ py ''Invalid data found'')"
       and rc = 1 and err = "py ''Invalid data found''" and fx = "Wrote [0]"
       and rc' = 1 and err' = "py ''Invalid data found''" and fx' = "Wrote [0]"]
  note T2 = output_written_after_formatting
    [where w = old_output_world and E = readonly_env and j = cafe_transcript]
  note T3 = output_written_after_formatting
    [where w = old_output_world and E = full_disk_env and j = cafe_transcript]
  have a: "exists audio_file old_output_world" by (rule old_output_world_exists)
  have b: "exists audio_file input_world" by (rule input_world_exists)
  have c: "formatted_data failing_env input_world
       = Inl (Exception (py ''ffmpeg failed: '' @ py ''Invalid data found''))"
    by (rule failing_formatted_data)
  from T1 b c have d: "files (snd (main failing_env input_world)) output_json
       = files input_world output_json
     \<and> OpenWrite output_json \<notin> set (new_calls input_world (snd (main failing_env input_world)))"
    by blast
  have e: "formatted_data readonly_env old_output_world = Inr cafe_transcript"
    by (rule readonly_formatted_data)
  have f: "\<not> writable readonly_env output_json"
    by (simp add: readonly_env_def)
  from T2 a e f have g: "files (snd (main readonly_env old_output_world)) output_json
       = files old_output_world output_json"
    by blast
  have h: "formatted_data full_disk_env old_output_world = Inr cafe_transcript"
    unfolding full_disk_env_def by (rule decimal_formatted_data)
  have i: "writable full_disk_env output_json"
    by (simp add: full_disk_env_def decimal_env_def)
  from T3 a h i have k: "files (snd (main full_disk_env old_output_world)) output_json
       = Some (fst (written full_disk_env output_json cafe_transcript))"
    by blast
  from a b c d e f g h i k show ?thesis by blast
qed

text \<open>
  The output is not all-or-nothing: on a device that takes five characters, a run that
  starts with an older output file ends with \<open>OSError\<close> and leaves the first five
  characters of the new transcript in the file, which is neither the older content nor the
  full transcript.
\<close>

theorem output_left_partial:
  "files old_output_world output_json = Some (py ''old'')
   \<and> formatted_data full_disk_env old_output_world = Inr cafe_transcript
   \<and> fst (main full_disk_env old_output_world) = Uncaught OSError
   \<and> files (snd (main full_disk_env old_output_world)) output_json = Some [123, 10, 32, 32, 34]
   \<and> \<not> (files (snd (main full_disk_env old_output_world)) output_json
          = files old_output_world output_json
        \<or> files (snd (main full_disk_env old_output_world)) output_json
          = Some (fst (iterencode (float_repr full_disk_env) 0 cafe_transcript)))"
proof -
  have fd: "formatted_data full_disk_env old_output_world = Inr cafe_transcript"
    unfolding full_disk_env_def by (rule decimal_formatted_data)
  have wr: "writable full_disk_env output_json"
    by (simp add: full_disk_env_def decimal_env_def)
  have 1: "fst (main full_disk_env old_output_world) = Uncaught OSError"
    using old_output_world_exists fd wr
    by (simp add: main_fst main_try_fst full_disk_written)
  have 2: "files (snd (main full_disk_env old_output_world)) output_json = Some [123, 10, 32, 32, 34]"
    using old_output_world_exists fd wr
    by (simp add: main_files output_after_def full_disk_written)
  have fr: "float_repr full_disk_env = float_repr decimal_env"
    by (simp add: full_disk_env_def)
  have 3: "fst (iterencode (float_repr full_disk_env) 0 cafe_transcript) \<noteq> [123, 10, 32, 32, 34]"
    unfolding fr cafe_text by simp
  have 4: "py ''old'' \<noteq> [123, 10, 32, 32, 34]"
    by (simp add: py_def)
  from 1 2 3 4 fd old_output_world_output show ?thesis by simp
qed

text \<open>
  C7.  Running the program again on the world the first run left behind ends the same way
  and leaves the same files, byte for byte, provided no stale clip lay at the clip's path
  before the first run or the media tool never returns 0 without writing its output; the
  recogniser is a function of the clip, hence deterministic.  A run that returns leaves in
  the output file exactly the serialised transcript, whatever the file held before: the
  second run overwrites the file of the first and appends nothing.
\<close>

theorem rerun_is_idempotent:
  "(files w temp_audio = None \<or> writes_on_success E \<longrightarrow>
      fst (main E (snd (main E w))) = fst (main E w)
      \<and> files (snd (main E (snd (main E w)))) = files (snd (main E w)))
   \<and> (fst (main E w) = Returned \<longrightarrow>
      (\<exists>j. formatted_data E w = Inr j \<and> snd (iterencode (float_repr E) 0 j) = None
           \<and> files (snd (main E w)) output_json = Some (fst (iterencode (float_repr E) 0 j))))"
proof (intro conjI impI)
  assume h: "files w temp_audio = None \<or> writes_on_success E"
  show "fst (main E (snd (main E w))) = fst (main E w)"
    using h by (rule main_idempotent(1))
  show "files (snd (main E (snd (main E w)))) = files (snd (main E w))"
    using h by (rule main_idempotent(2))
next
  assume "fst (main E w) = Returned"
  then show "\<exists>j. formatted_data E w = Inr j \<and> snd (iterencode (float_repr E) 0 j) = None
           \<and> files (snd (main E w)) output_json = Some (fst (iterencode (float_repr E) 0 j))"
    by (rule main_returned)
qed

theorem rerun_is_idempotent_witness:
  "files old_output_world temp_audio = None
   \<and> fst (main decimal_env old_output_world) = Returned
   \<and> fst (main decimal_env (snd (main decimal_env old_output_world))) = Returned
   \<and> files (snd (main decimal_env (snd (main decimal_env old_output_world))))
       = files (snd (main decimal_env old_output_world))
   \<and> (\<exists>j. formatted_data decimal_env old_output_world = Inr j
          \<and> files (snd (main decimal_env old_output_world)) output_json
              = Some (fst (iterencode (float_repr decimal_env) 0 j)))"
proof -
  note T = rerun_is_idempotent [of old_output_world decimal_env]
  have 1: "files old_output_world temp_audio = None"
    by (simp add: old_output_world_def)
  have 2: "fst (main decimal_env old_output_world) = Returned"
    by (rule decimal_returned)
  from T 1 have 3: "fst (main decimal_env (snd (main decimal_env old_output_world)))
        = fst (main decimal_env old_output_world)"
    by blast
  from T 1 have 4: "files (snd (main decimal_env (snd (main decimal_env old_output_world))))
       = files (snd (main decimal_env old_output_world))"
    by blast
  from T 2 have 5: "\<exists>j. formatted_data decimal_env old_output_world = Inr j
          \<and> files (snd (main decimal_env old_output_world)) output_json
              = Some (fst (iterencode (float_repr decimal_env) 0 j))"
    by blast
  from 1 2 3 4 5 show ?thesis by simp
qed

section \<open>The claim about the output file\<close>

text \<open>
  C10.  The output file holds ASCII characters only, and a character outside ASCII in a
  word's text is written as an escape, never raw.  In detail: the text the JSON writer
  produces is ASCII for every value at every nesting level, and so is the file the write
  leaves behind, provided numbers are rendered in ASCII as \<open>repr\<close> does.  A quoted string
  is a quote, one escape per character, and a quote, where each escape is the one JSON
  prescribes for its character: a character outside ASCII becomes \<open>\u\<close> and four
  lower-case hexadecimal digits whose value is the character, and a character beyond the
  basic plane becomes two such escapes whose values are its two UTF-16 surrogates, which
  spell the character back.  The four digits written for a code unit have that code unit
  as their value.  The writer's output for a transcript is exactly the two-space layout
  with the escaped text of every word in it, this is what the write puts in the file, and
  it is what a run leaves in the output file when the device takes all of it.  For
  instance \<open>caf\<close> followed by U+00E9 is written as \<open>caf\<close>, a backslash and
  \<open>u00e9\<close>.
\<close>

theorem json_output_is_ascii:
  "((\<forall>t. list_all is_ascii (float_repr E t)) \<longrightarrow>
      list_all is_ascii (fst (iterencode (float_repr E) level v)))
   \<and> ((\<forall>t. list_all is_ascii (float_repr E t)) \<and> writable E path \<longrightarrow>
      (\<exists>out. files (snd (write_json E path v w)) path = Some out \<and> list_all is_ascii out))
   \<and> list_all is_ascii (encode_basestring_ascii s)
   \<and> (list_all (\<lambda>c. c < 1114112) s \<longrightarrow>
        (\<exists>pieces. encode_basestring_ascii s = [34] @ concat pieces @ [34]
                 \<and> list_all2 is_escape_of s pieces))
   \<and> (128 \<le> c \<and> c < 65536 \<longrightarrow>
        (\<exists>ds. escape_char c = [92, 117] @ ds \<and> length ds = 4 \<and> list_all is_hex ds
              \<and> hex_value ds = c))
   \<and> (65536 \<le> c \<and> c < 1114112 \<longrightarrow>
        (\<exists>hs ls. escape_char c = [92, 117] @ hs @ [92, 117] @ ls
           \<and> length hs = 4 \<and> length ls = 4 \<and> list_all is_hex hs \<and> list_all is_hex ls
           \<and> hex_value hs = high_surrogate c \<and> hex_value ls = low_surrogate c
           \<and> 65536 + (hex_value hs - 55296) * 1024 + (hex_value ls - 56320) = c))
   \<and> (n < 65536 \<longrightarrow>
        length (hex4 n) = 4 \<and> list_all is_hex (hex4 n) \<and> hex_value (hex4 n) = n)
   \<and> iterencode (float_repr E) 0 (timed_transcript es)
       = (transcript_text (map (tokens (float_repr E)) es), None)
   \<and> (writable E path \<and> write_limit E path = None \<longrightarrow>
        files (snd (write_json E path (timed_transcript es) w)) path
          = Some (transcript_text (map (tokens (float_repr E)) es)))
   \<and> (exists audio_file w \<and> formatted_data E w = Inr (timed_transcript es)
        \<and> writable E output_json \<and> write_limit E output_json = None \<longrightarrow>
        files (snd (main E w)) output_json
          = Some (transcript_text (map (tokens (float_repr E)) es)))
   \<and> tokens (float_repr E) (wd, a, b) = (encode_basestring_ascii wd, float_repr E a, float_repr E b)
   \<and> timed_transcript (map (\<lambda>(wd, a, b). (strip wd, a, b)) es)
       = transcript (map json_word (map (\<lambda>(wd, a, b). (wd, PyNum a, PyNum b)) es))
   \<and> encode_basestring_ascii [99, 97, 102, 233]
       = [34, 99, 97, 102, 92, 117, 48, 48, 101, 57, 34]"
proof (intro conjI impI)
  show "list_all is_ascii (fst (iterencode (float_repr E) level v))"
    if "\<forall>t. list_all is_ascii (float_repr E t)"
    using that by (rule iterencode_ascii(1))
  show "\<exists>out. files (snd (write_json E path v w)) path = Some out \<and> list_all is_ascii out"
    if "(\<forall>t. list_all is_ascii (float_repr E t)) \<and> writable E path"
    using that write_json_ascii [of E path v w] by blast
  show "list_all is_ascii (encode_basestring_ascii s)"
    by (rule encode_basestring_ascii_ascii)
  show "\<exists>pieces. encode_basestring_ascii s = [34] @ concat pieces @ [34]
                 \<and> list_all2 is_escape_of s pieces"
    if "list_all (\<lambda>c. c < 1114112) s"
    using that by (rule encode_basestring_ascii_spec)
  show "\<exists>ds. escape_char c = [92, 117] @ ds \<and> length ds = 4 \<and> list_all is_hex ds
              \<and> hex_value ds = c"
    if "128 \<le> c \<and> c < 65536"
    using that escape_char_bmp [of c] by blast
  show "\<exists>hs ls. escape_char c = [92, 117] @ hs @ [92, 117] @ ls
           \<and> length hs = 4 \<and> length ls = 4 \<and> list_all is_hex hs \<and> list_all is_hex ls
           \<and> hex_value hs = high_surrogate c \<and> hex_value ls = low_surrogate c
           \<and> 65536 + (hex_value hs - 55296) * 1024 + (hex_value ls - 56320) = c"
    if "65536 \<le> c \<and> c < 1114112"
    using that escape_char_astral [of c] by blast
  show "length (hex4 n) = 4" if "n < 65536"
    by (rule length_hex4)
  show "list_all is_hex (hex4 n)" if "n < 65536"
    by (rule hex4_hex)
  show "hex_value (hex4 n) = n" if "n < 65536"
    using that by (rule hex_value_hex4)
  show "iterencode (float_repr E) 0 (timed_transcript es)
       = (transcript_text (map (tokens (float_repr E)) es), None)"
    by (rule transcript_encoded)
  show "files (snd (write_json E path (timed_transcript es) w)) path
          = Some (transcript_text (map (tokens (float_repr E)) es))"
    if "writable E path \<and> write_limit E path = None"
    using that write_json_transcript [of E path es w] by blast
  show "files (snd (main E w)) output_json
          = Some (transcript_text (map (tokens (float_repr E)) es))"
    if "exists audio_file w \<and> formatted_data E w = Inr (timed_transcript es)
        \<and> writable E output_json \<and> write_limit E output_json = None"
    using that main_transcript [of w E es] by blast
  show "tokens (float_repr E) (wd, a, b)
      = (encode_basestring_ascii wd, float_repr E a, float_repr E b)"
    by (simp add: tokens_def)
  show "timed_transcript (map (\<lambda>(wd, a, b). (strip wd, a, b)) es)
       = transcript (map json_word (map (\<lambda>(wd, a, b). (wd, PyNum a, PyNum b)) es))"
    by (rule timed_transcript_json_word)
  show "encode_basestring_ascii [99, 97, 102, 233]
       = [34, 99, 97, 102, 92, 117, 48, 48, 101, 57, 34]"
    by (rule encode_cafe)
qed

theorem json_output_is_ascii_witness:
  "(\<forall>t. list_all is_ascii (float_repr decimal_env t))
   \<and> writable decimal_env output_json
   \<and> write_limit decimal_env output_json = None
   \<and> exists audio_file old_output_world
   \<and> formatted_data decimal_env old_output_world = Inr (timed_transcript [([99, 97, 102, 233], 0, 1)])
   \<and> list_all (\<lambda>c. c < 1114112) [99, 97, 102, 233 :: nat]
   \<and> (128 :: nat) \<le> 233 \<and> (233 :: nat) < 65536
   \<and> (65536 :: nat) \<le> 128512 \<and> (128512 :: nat) < 1114112
   \<and> files (snd (main decimal_env old_output_world)) output_json
       = Some (transcript_text
                 [(encode_basestring_ascii [99, 97, 102, 233],
                   float_repr decimal_env 0, float_repr decimal_env 1)])
   \<and> (\<exists>out. files (snd (main decimal_env old_output_world)) output_json = Some out
            \<and> list_all is_ascii out)
   \<and> (\<exists>pieces. encode_basestring_ascii [99, 97, 102, 233] = [34] @ concat pieces @ [34]
            \<and> list_all2 is_escape_of [99, 97, 102, 233] pieces)
   \<and> (\<exists>ds. escape_char 233 = [92, 117] @ ds \<and> hex_value ds = 233)
   \<and> (\<exists>hs ls. escape_char 128512 = [92, 117] @ hs @ [92, 117] @ ls
            \<and> 65536 + (hex_value hs - 55296) * 1024 + (hex_value ls - 56320) = 128512)
   \<and> hex_value (hex4 233) = 233"
proof -
  note T = json_output_is_ascii [where E = decimal_env and level = 0
             and v = "timed_transcript [([99, 97, 102, 233], 0, 1)]" and path = output_json
             and w = old_output_world and s = "[99, 97, 102, 233]" and c = 233 and n = 233
             and es = "[([99, 97, 102, 233], 0, 1)]" and wd = "[99, 97, 102, 233]"
             and a = 0 and b = 1]
  note T' = json_output_is_ascii [where E = decimal_env and c = 128512]
  have 1: "\<forall>t. list_all is_ascii (float_repr decimal_env t)"
    by (rule decimal_env_ascii)
  have 2: "writable decimal_env output_json"
    by (rule decimal_env_writable)
  have 3: "write_limit decimal_env output_json = None"
    by (rule decimal_env_unlimited)
  have 4: "exists audio_file old_output_world"
    by (rule old_output_world_exists)
  have 5: "formatted_data decimal_env old_output_world
      = Inr (timed_transcript [([99, 97, 102, 233], 0, 1)])"
    using decimal_formatted_data [of "\<lambda>path. None" old_output_world]
    by (simp only: decimal_env_id cafe_timed)
  have 6: "list_all (\<lambda>c. c < 1114112) [99, 97, 102, 233 :: nat]"
    by (rule cafe_code_points)
  have 7: "(128 :: nat) \<le> 233 \<and> (233 :: nat) < 65536"
    by simp
  have 8: "(65536 :: nat) \<le> 128512 \<and> (128512 :: nat) < 1114112"
    by simp
  from T 2 3 4 5 have "files (snd (main decimal_env old_output_world)) output_json
       = Some (transcript_text (map (tokens (float_repr decimal_env)) [([99, 97, 102, 233], 0, 1)]))"
    by blast
  moreover from T have "tokens (float_repr decimal_env) ([99, 97, 102, 233], 0, 1)
      = (encode_basestring_ascii [99, 97, 102, 233], float_repr decimal_env 0, float_repr decimal_env 1)"
    by blast
  ultimately have 9: "files (snd (main decimal_env old_output_world)) output_json
       = Some (transcript_text
                 [(encode_basestring_ascii [99, 97, 102, 233],
                   float_repr decimal_env 0, float_repr decimal_env 1)])"
    by simp
  from T 1 have "list_all is_ascii
      (fst (iterencode (float_repr decimal_env) 0 (timed_transcript [([99, 97, 102, 233], 0, 1)])))"
    by blast
  moreover from T have "iterencode (float_repr decimal_env) 0 (timed_transcript [([99, 97, 102, 233], 0, 1)])
       = (transcript_text (map (tokens (float_repr decimal_env)) [([99, 97, 102, 233], 0, 1)]), None)"
    by blast
  ultimately have "list_all is_ascii
      (transcript_text (map (tokens (float_repr decimal_env)) [([99, 97, 102, 233], 0, 1)]))"
    by simp
  with \<open>files (snd (main decimal_env old_output_world)) output_json
       = Some (transcript_text (map (tokens (float_repr decimal_env)) [([99, 97, 102, 233], 0, 1)]))\<close>
  have 10: "\<exists>out. files (snd (main decimal_env old_output_world)) output_json = Some out
            \<and> list_all is_ascii out"
    by blast
  from T 6 have 11: "\<exists>pieces. encode_basestring_ascii [99, 97, 102, 233] = [34] @ concat pieces @ [34]
            \<and> list_all2 is_escape_of [99, 97, 102, 233] pieces"
    by blast
  from T 7 have 12: "\<exists>ds. escape_char 233 = [92, 117] @ ds \<and> hex_value ds = 233"
    by blast
  from T' 8 have 13: "\<exists>hs ls. escape_char 128512 = [92, 117] @ hs @ [92, 117] @ ls
            \<and> 65536 + (hex_value hs - 55296) * 1024 + (hex_value ls - 56320) = 128512"
    by blast
  from T 7 have 14: "hex_value (hex4 233) = 233"
    by blast
  from 1 2 3 4 5 6 7 8 9 10 11 12 13 14 show ?thesis by blast
qed

end
